theory Spec2Isabelle
  imports Main "HOL-Library.FSet" "HOL-Library.List_Lexorder" "HOL-Library.Sublist"
begin

section \<open>Text, bytes and dictionaries\<close>

text \<open>
  The script \<^verbatim>\<open>scripts/generate_ast_dependencies.py\<close> works on two kinds of strings.
  A Python \<^verbatim>\<open>bytes\<close> object is a list of 8-bit characters; a Python \<^verbatim>\<open>str\<close> is a list of
  Unicode code points, compared and sorted code point by code point. Constant identifiers
  of the script itself (language ids, capture names) are plain ASCII and are kept as
  \<^typ>\<open>string\<close>.
\<close>

type_synonym bytes = "char list"
type_synonym str = "nat list"

definition ascii :: "string \<Rightarrow> str" where
  "ascii s = map of_char s"

text \<open>
  A Python \<^verbatim>\<open>dict\<close> keeps its keys in insertion order, and the summary depends on that
  order, so a dictionary is an association list whose keys are pairwise distinct.
  Storing under a present key keeps the key's position; storing under a new key appends.
\<close>

type_synonym ('k, 'v) dict = "('k \<times> 'v) list"

fun dict_get :: "('k, 'v) dict \<Rightarrow> 'k \<Rightarrow> 'v option" where
  "dict_get [] k = None"
| "dict_get ((k', v) # d) k = (if k' = k then Some v else dict_get d k)"

fun dict_set :: "('k, 'v) dict \<Rightarrow> 'k \<Rightarrow> 'v \<Rightarrow> ('k, 'v) dict" where
  "dict_set [] k v = [(k, v)]"
| "dict_set ((k', v') # d) k v = (if k' = k then (k, v) # d else (k', v') # dict_set d k v)"

definition keys :: "('k, 'v) dict \<Rightarrow> 'k list" where
  "keys d = map fst d"

definition values_of :: "('k, 'v) dict \<Rightarrow> 'v list" where
  "values_of d = map snd d"

text \<open>\<^verbatim>\<open>collections.defaultdict(factory)\<close>: reading a missing key stores the default first.\<close>

definition defaultdict_get :: "'v \<Rightarrow> ('k, 'v) dict \<Rightarrow> 'k \<Rightarrow> 'v \<times> ('k, 'v) dict" where
  "defaultdict_get dflt d k =
     (case dict_get d k of
        Some v \<Rightarrow> (v, d)
      | None \<Rightarrow> (dflt, dict_set d k dflt))"

section \<open>The dependency graph\<close>

text \<open>
  \<^verbatim>\<open>
  @dataclass(slots=True)
  class DependencyGraph:
      edges: MutableMapping[str, Set[str]] = field(default_factory=lambda: defaultdict(set))
  \<close>
  A Python set is finite and unordered: \<^typ>\<open>str fset\<close>.
\<close>

record DependencyGraph =
  edges :: "(str, str fset) dict"

definition empty_graph :: DependencyGraph where
  "empty_graph = \<lparr>edges = []\<rparr>"

text \<open>
  One iteration of the loop in \<^verbatim>\<open>add\<close>:
  \<^verbatim>\<open>
  if target:
      self.edges[source].add(target)
  \<close>
  The empty string is falsy. \<^verbatim>\<open>self.edges[source]\<close> creates the entry when it is missing,
  and is only evaluated for a non-empty target.
\<close>

definition add_target :: "str \<Rightarrow> str \<Rightarrow> (str, str fset) dict \<Rightarrow> (str, str fset) dict" where
  "add_target source target es =
     (if target \<noteq> [] then
        (case defaultdict_get {||} es source of
           (s, es') \<Rightarrow> dict_set es' source (finsert target s))
      else es)"

text \<open>
  \<^verbatim>\<open>
  def add(self, source, targets):
      if not targets:
          return
      for target in targets:
          if target:
              self.edges[source].add(target)
  \<close>
\<close>

definition add :: "DependencyGraph \<Rightarrow> str \<Rightarrow> str list \<Rightarrow> DependencyGraph" where
  "add g source targets =
     (if targets = [] then g
      else g\<lparr>edges := fold (add_target source) targets (edges g)\<rparr>)"

text \<open>
  \<^verbatim>\<open>return {key: sorted(values) for key, values in self.edges.items()}\<close>
  The keys of \<^verbatim>\<open>self.edges\<close> are distinct, so the comprehension keeps every item in place.
  \<^verbatim>\<open>sorted\<close> on strings is the lexicographic order on code points.
\<close>

definition to_serializable :: "DependencyGraph \<Rightarrow> (str, str list) dict" where
  "to_serializable g = map (\<lambda>(key, vals). (key, sorted_list_of_fset vals)) (edges g)"

text \<open>\<^verbatim>\<open>return sum(len(targets) for targets in self.edges.values())\<close>\<close>

definition edge_count :: "DependencyGraph \<Rightarrow> nat" where
  "edge_count g = sum_list (map fcard (values_of (edges g)))"

text \<open>
  A sequence of calls \<^verbatim>\<open>graph.add(source, targets)\<close>, in order. The states a graph can be
  in are those reached from the empty graph by such a sequence.
\<close>

definition add_all :: "(str \<times> str list) list \<Rightarrow> DependencyGraph \<Rightarrow> DependencyGraph" where
  "add_all calls g = fold (\<lambda>(source, targets) g'. add g' source targets) calls g"


section \<open>Decoding bytes\<close>

datatype exn = TreeSitterError | UnicodeDecodeError | OSError

text \<open>
  \<^verbatim>\<open>bytes.decode()\<close> is the UTF-8 decoder of the Python runtime. \<open>utf8_next\<close> reads one
  code point from the front of a byte sequence and returns it with the number of bytes
  it takes; on an ill-formed sequence it returns \<open>None\<close> with the length of the offending
  part (the lead byte and the continuation bytes that were still acceptable).
\<close>

definition is_cont :: "nat \<Rightarrow> bool" where
  "is_cont c = (128 \<le> c \<and> c \<le> 191)"

fun utf8_next :: "nat list \<Rightarrow> nat option \<times> nat" where
  "utf8_next [] = (None, 1)"
| "utf8_next (b # rest) =
     (if b < 128 then (Some b, 1)
      else if 194 \<le> b \<and> b \<le> 223 then
        (case rest of
           c1 # _ \<Rightarrow> if is_cont c1 then (Some ((b - 192) * 64 + (c1 - 128)), 2) else (None, 1)
         | [] \<Rightarrow> (None, 1))
      else if 224 \<le> b \<and> b \<le> 239 then
        (case rest of
           c1 # r1 \<Rightarrow>
             if (if b = 224 then 160 else 128) \<le> c1 \<and> c1 \<le> (if b = 237 then 159 else 191) then
               (case r1 of
                  c2 # _ \<Rightarrow>
                    if is_cont c2
                    then (Some ((b - 224) * 4096 + (c1 - 128) * 64 + (c2 - 128)), 3)
                    else (None, 2)
                | [] \<Rightarrow> (None, 2))
             else (None, 1)
         | [] \<Rightarrow> (None, 1))
      else if 240 \<le> b \<and> b \<le> 244 then
        (case rest of
           c1 # r1 \<Rightarrow>
             if (if b = 240 then 144 else 128) \<le> c1 \<and> c1 \<le> (if b = 244 then 143 else 191) then
               (case r1 of
                  c2 # r2 \<Rightarrow>
                    if is_cont c2 then
                      (case r2 of
                         c3 # _ \<Rightarrow>
                           if is_cont c3
                           then (Some ((b - 240) * 262144 + (c1 - 128) * 4096
                                        + (c2 - 128) * 64 + (c3 - 128)), 4)
                           else (None, 3)
                       | [] \<Rightarrow> (None, 3))
                    else (None, 2)
                | [] \<Rightarrow> (None, 2))
             else (None, 1)
         | [] \<Rightarrow> (None, 1))
      else (None, 1))"

text \<open>\<^verbatim>\<open>.decode()\<close>: strict, raises \<^verbatim>\<open>UnicodeDecodeError\<close> at the first ill-formed sequence.\<close>

function utf8_strict :: "nat list \<Rightarrow> exn + str" where
  "utf8_strict bs =
     (if bs = [] then Inr []
      else (case utf8_next bs of
              (None, n) \<Rightarrow> Inl UnicodeDecodeError
            | (Some cp, n) \<Rightarrow>
                (case utf8_strict (drop (max 1 n) bs) of
                   Inl e \<Rightarrow> Inl e
                 | Inr t \<Rightarrow> Inr (cp # t))))"
  by pat_completeness auto
termination
  by (relation "measure length") auto

text \<open>\<^verbatim>\<open>.decode(errors="ignore")\<close>: ill-formed sequences are dropped; it never raises.\<close>

function utf8_ignore :: "nat list \<Rightarrow> str" where
  "utf8_ignore bs =
     (if bs = [] then []
      else (case utf8_next bs of
              (None, n) \<Rightarrow> utf8_ignore (drop (max 1 n) bs)
            | (Some cp, n) \<Rightarrow> cp # utf8_ignore (drop (max 1 n) bs)))"
  by pat_completeness auto
termination
  by (relation "measure length") auto

definition decode :: "bytes \<Rightarrow> exn + str" where
  "decode bs = utf8_strict (map of_char bs)"

definition decode_ignore :: "bytes \<Rightarrow> str" where
  "decode_ignore bs = utf8_ignore (map of_char bs)"

text \<open>\<^verbatim>\<open>source_bytes[start:end]\<close> for non-negative bounds; slicing clamps and never raises.\<close>

definition slice :: "'a list \<Rightarrow> nat \<Rightarrow> nat \<Rightarrow> 'a list" where
  "slice xs start stop = take (stop - start) (drop start xs)"

section \<open>Regular expressions\<close>

text \<open>
  The fallback extractors are regular expressions run by Python's backtracking \<^verbatim>\<open>re\<close>
  engine. The fragment the script uses: \<^verbatim>\<open>^\<close> under \<^verbatim>\<open>re.MULTILINE\<close>, literals, character
  classes, the greedy quantifiers \<^verbatim>\<open>*\<close>, \<^verbatim>\<open>+\<close> and \<^verbatim>\<open>?\<close> on a single character class,
  concatenation, alternation, capturing groups and a back-reference.

  \<open>rx_match\<close> returns every way the expression can match at the current position, in the
  order in which the backtracking engine tries them (a greedy quantifier takes the longest
  run first, the left alternative comes first); the engine's answer is the first one.
  A match state is the character before the current position (\<open>None\<close> at the start of the
  text), the text that remains, and the groups captured so far.
\<close>

datatype rx =
    Bol
  | Lit str
  | Chr "nat \<Rightarrow> bool"
  | Star "nat \<Rightarrow> bool"
  | Plus "nat \<Rightarrow> bool"
  | Opt "nat \<Rightarrow> bool"
  | Cat rx rx
  | Or rx rx
  | Group nat rx
  | Backref nat

type_synonym mstate = "nat option \<times> str \<times> (nat, str) dict"

text \<open>Moving on by \<open>k\<close> characters, and recording what a group matched since \<open>s\<close>.\<close>

definition advance :: "mstate \<Rightarrow> nat \<Rightarrow> mstate" where
  "advance st k =
     (case st of (p, s, g) \<Rightarrow>
        ((case take k s of [] \<Rightarrow> p | t \<Rightarrow> Some (last t)), drop k s, g))"

definition set_group :: "nat \<Rightarrow> str \<Rightarrow> mstate \<Rightarrow> mstate" where
  "set_group i s st' =
     (case st' of (p', s', g') \<Rightarrow> (p', s', dict_set g' i (take (length s - length s') s)))"

fun rx_match :: "rx \<Rightarrow> mstate \<Rightarrow> mstate list" where
  "rx_match Bol st =
     (case st of (p, s, g) \<Rightarrow> if p = None \<or> p = Some 10 then [st] else [])"
| "rx_match (Lit l) st =
     (case st of (p, s, g) \<Rightarrow> if take (length l) s = l then [advance st (length l)] else [])"
| "rx_match (Chr c) st =
     (case st of (p, s, g) \<Rightarrow>
        (case s of [] \<Rightarrow> [] | x # xs \<Rightarrow> if c x then [advance st 1] else []))"
| "rx_match (Star c) st =
     (case st of (p, s, g) \<Rightarrow> map (advance st) (rev [0..<Suc (length (takeWhile c s))]))"
| "rx_match (Plus c) st =
     (case st of (p, s, g) \<Rightarrow> map (advance st) (rev [1..<Suc (length (takeWhile c s))]))"
| "rx_match (Opt c) st =
     (case st of (p, s, g) \<Rightarrow>
        (case s of [] \<Rightarrow> [st] | x # xs \<Rightarrow> if c x then [advance st 1, st] else [st]))"
| "rx_match (Cat a b) st = concat (map (rx_match b) (rx_match a st))"
| "rx_match (Or a b) st = rx_match a st @ rx_match b st"
| "rx_match (Group i r) st =
     (case st of (p, s, g) \<Rightarrow> map (set_group i s) (rx_match r st))"
| "rx_match (Backref i) st =
     (case st of (p, s, g) \<Rightarrow>
        (case dict_get g i of
           None \<Rightarrow> []
         | Some t \<Rightarrow> if take (length t) s = t then [advance st (length t)] else []))"

fun seq :: "rx list \<Rightarrow> rx" where
  "seq [] = Lit []"
| "seq [r] = r"
| "seq (r # rs) = Cat r (seq rs)"

text \<open>
  \<^verbatim>\<open>pattern.finditer(text)\<close>: the leftmost match from each position, the search resuming
  where the last match ended. Each of the six patterns below contains a literal, so no
  match is empty; after an empty match the scan moves on by one character.
\<close>

function finditer :: "rx \<Rightarrow> nat option \<Rightarrow> str \<Rightarrow> (nat, str) dict list" where
  "finditer r p s =
     (case rx_match r (p, s, []) of
        (p', s', g) # _ \<Rightarrow>
          (if length s' < length s then g # finditer r p' s'
           else (case s of [] \<Rightarrow> [g] | x # xs \<Rightarrow> g # finditer r (Some x) xs))
      | [] \<Rightarrow> (case s of [] \<Rightarrow> [] | x # xs \<Rightarrow> finditer r (Some x) xs))"
  by pat_completeness auto
termination
  by (relation "measure (\<lambda>(r, p, s). length s)") auto

text \<open>\<^verbatim>\<open>match.group(i)\<close> is \<^verbatim>\<open>None\<close> for a group that took no part in the match.\<close>

definition group :: "(nat, str) dict \<Rightarrow> nat \<Rightarrow> str option" where
  "group g i = dict_get g i"

text \<open>\<^verbatim>\<open>pattern.findall(text)\<close> for a pattern with one group: the group's text per match.\<close>

definition findall :: "rx \<Rightarrow> str \<Rightarrow> str list" where
  "findall r text =
     map (\<lambda>g. case group g 1 of None \<Rightarrow> [] | Some t \<Rightarrow> t) (finditer r None text)"

text \<open>
  \<^verbatim>\<open>\s\<close> in a \<^verbatim>\<open>str\<close> pattern is Unicode white space. \<^verbatim>\<open>\w\<close> is an alphanumeric character or
  the underscore; beyond ASCII the alphanumeric characters are those of the Unicode
  database of the Python runtime, a parameter \<open>alnum\<close> here.
\<close>

definition is_space :: "nat \<Rightarrow> bool" where
  "is_space c =
     (if c < 128 then (9 \<le> c \<and> c \<le> 13) \<or> (28 \<le> c \<and> c \<le> 32)
      else c = 133 \<or> c = 160 \<or> c = 5760 \<or> (8192 \<le> c \<and> c \<le> 8202) \<or> c = 8232
           \<or> c = 8233 \<or> c = 8239 \<or> c = 8287 \<or> c = 12288)"

definition is_word :: "(nat \<Rightarrow> bool) \<Rightarrow> nat \<Rightarrow> bool" where
  "is_word alnum c =
     (if c < 128 then (48 \<le> c \<and> c \<le> 57) \<or> (65 \<le> c \<and> c \<le> 90) \<or> (97 \<le> c \<and> c \<le> 122) \<or> c = 95
      else alnum c)"

definition one_of :: "nat list \<Rightarrow> nat \<Rightarrow> bool" where
  "one_of cs c = List.member cs c"

definition QUOTE :: nat where "QUOTE = 34"
definition APOS :: nat where "APOS = 39"
definition LT :: nat where "LT = 60"
definition GT :: nat where "GT = 62"

section \<open>The fallback extractors\<close>

text \<open>\<^verbatim>\<open>r"^\s*(?:%include|\.include)\s+([\"']?)([^\s\"']+)\1"\<close>, the second group of each match.\<close>

definition asm_pattern :: rx where
  "asm_pattern =
     seq [Bol, Star is_space, Or (Lit (ascii ''%include'')) (Lit (ascii ''.include'')),
          Plus is_space, Group 1 (Opt (one_of [QUOTE, APOS])),
          Group 2 (Plus (\<lambda>c. \<not> (is_space c \<or> one_of [QUOTE, APOS] c))), Backref 1]"

definition regex_asm_includes :: "str \<Rightarrow> str list" where
  "regex_asm_includes source_text =
     map (\<lambda>g. case group g 2 of None \<Rightarrow> [] | Some t \<Rightarrow> t) (finditer asm_pattern None source_text)"

text \<open>\<^verbatim>\<open>r"^\s*#\s*include\s+[<\"]([^>\"]+)[>\"]"\<close>\<close>

definition c_pattern :: rx where
  "c_pattern =
     seq [Bol, Star is_space, Lit (ascii ''#''), Star is_space, Lit (ascii ''include''),
          Plus is_space, Chr (one_of [LT, QUOTE]),
          Group 1 (Plus (\<lambda>c. \<not> one_of [GT, QUOTE] c)), Chr (one_of [GT, QUOTE])]"

definition regex_c_includes :: "str \<Rightarrow> str list" where
  "regex_c_includes source_text = findall c_pattern source_text"

text \<open>\<^verbatim>\<open>r"require\s*\(\s*['\"]([^'\"]+)['\"]\s*\)"\<close>\<close>

definition lua_pattern :: rx where
  "lua_pattern =
     seq [Lit (ascii ''require''), Star is_space, Lit (ascii ''(''), Star is_space,
          Chr (one_of [APOS, QUOTE]), Group 1 (Plus (\<lambda>c. \<not> one_of [APOS, QUOTE] c)),
          Chr (one_of [APOS, QUOTE]), Star is_space, Lit (ascii '')'')]"

definition regex_lua_requires :: "str \<Rightarrow> str list" where
  "regex_lua_requires source_text = findall lua_pattern source_text"

text \<open>\<^verbatim>\<open>r"^\s*use\s+([\w:]+)"\<close>\<close>

definition perl_pattern :: "(nat \<Rightarrow> bool) \<Rightarrow> rx" where
  "perl_pattern alnum =
     seq [Bol, Star is_space, Lit (ascii ''use''), Plus is_space,
          Group 1 (Plus (\<lambda>c. is_word alnum c \<or> c = 58))]"

definition regex_perl_uses :: "(nat \<Rightarrow> bool) \<Rightarrow> str \<Rightarrow> str list" where
  "regex_perl_uses alnum source_text = findall (perl_pattern alnum) source_text"

text \<open>
  \<^verbatim>\<open>
  pattern = re.compile(r"^\s*(?:from\s+([\w\.]+)\s+import|import\s+([\w\.]+))", re.MULTILINE)
  for match in pattern.finditer(source_text):
      module = match.group(1) or match.group(2)
      if module:
          imports.append(module)
  \<close>
\<close>

definition python_pattern :: "(nat \<Rightarrow> bool) \<Rightarrow> rx" where
  "python_pattern alnum =
     seq [Bol, Star is_space,
          Or (seq [Lit (ascii ''from''), Plus is_space,
                   Group 1 (Plus (\<lambda>c. is_word alnum c \<or> c = 46)), Plus is_space,
                   Lit (ascii ''import'')])
             (seq [Lit (ascii ''import''), Plus is_space,
                   Group 2 (Plus (\<lambda>c. is_word alnum c \<or> c = 46))])]"

definition truthy :: "str option \<Rightarrow> bool" where
  "truthy m = (case m of None \<Rightarrow> False | Some t \<Rightarrow> t \<noteq> [])"

definition regex_python_imports :: "(nat \<Rightarrow> bool) \<Rightarrow> str \<Rightarrow> str list" where
  "regex_python_imports alnum source_text =
     concat (map (\<lambda>g. let module = (if truthy (group g 1) then group g 1 else group g 2)
                      in (case module of Some t \<Rightarrow> if t \<noteq> [] then [t] else [] | None \<Rightarrow> []))
                 (finditer (python_pattern alnum) None source_text))"

text \<open>\<^verbatim>\<open>r"^\s*(?:source|\.)\s+([^\s]+)"\<close>\<close>

definition bash_pattern :: rx where
  "bash_pattern =
     seq [Bol, Star is_space, Or (Lit (ascii ''source'')) (Lit (ascii ''.'')), Plus is_space,
          Group 1 (Plus (\<lambda>c. \<not> is_space c))]"

definition regex_bash_sources :: "str \<Rightarrow> str list" where
  "regex_bash_sources source_text = findall bash_pattern source_text"


section \<open>The grammar-based extractors\<close>

text \<open>
  \<^verbatim>\<open>
  def _strip_quotes(raw):
      if len(raw) >= 2 and raw[0] in {'"', "'", '<'} and raw[-1] in {raw[0], '>'}:
          if (raw[0] == '<' and raw[-1] == '>') or (raw[0] == raw[-1]):
              return raw[1:-1]
      return raw
  \<close>
\<close>

definition strip_quotes :: "str \<Rightarrow> str" where
  "strip_quotes raw =
     (if length raw \<ge> 2 \<and> one_of [QUOTE, APOS, LT] (hd raw) \<and> one_of [hd raw, GT] (last raw)
      then (if (hd raw = LT \<and> last raw = GT) \<or> hd raw = last raw
            then butlast (tl raw) else raw)
      else raw)"

text \<open>
  The Tree-sitter library, the Unicode tables and the file system are outside the script
  and are parameters of the model.
  \<^item> \<open>ts_parse lang bytes\<close> stands for \<^verbatim>\<open>get_language(lang)\<close>, \<^verbatim>\<open>get_parser(lang)\<close> and
    \<^verbatim>\<open>parser.parse(bytes)\<close>; each of them may raise.
  \<^item> \<open>ts_captures lang query tree\<close> stands for \<^verbatim>\<open>language.query(query)\<close> and
    \<^verbatim>\<open>query.captures(tree.root_node)\<close>: it raises, or returns the captured nodes, each
    with its start byte, its end byte and the name of its capture.
  \<^item> \<open>isalnum\<close> is the alphanumeric test of the Unicode database beyond ASCII.
  \<^item> \<open>rglob\<close> lists what \<^verbatim>\<open>root.rglob("*")\<close> yields: the parts of each entry's path
    relative to the root, and whether the entry is a regular file.
  \<^item> \<open>read_bytes\<close> is \<^verbatim>\<open>path.read_bytes()\<close>, which may raise.
\<close>

type_synonym capture = "(nat \<times> nat) \<times> string"
type_synonym path = "str list"

record 't env =
  ts_parse :: "string \<Rightarrow> bytes \<Rightarrow> exn + 't"
  ts_captures :: "string \<Rightarrow> string \<Rightarrow> 't \<Rightarrow> exn + capture list"
  isalnum :: "nat \<Rightarrow> bool"
  rglob :: "(path \<times> bool) list"
  read_bytes :: "path \<Rightarrow> exn + bytes"

text \<open>
  The loop shared by the five query functions:
  \<^verbatim>\<open>
  for node, capture in query.captures(tree.root_node):
      if capture == name:
          out.append(post(source_bytes[node.start_byte : node.end_byte].decode()))
  \<close>
  The strict \<^verbatim>\<open>decode\<close> may raise in the middle of the loop; what was appended before stays
  in the list. The result is the list and the exception that ended the loop, if any.
\<close>

fun collect :: "string \<Rightarrow> (str \<Rightarrow> str) \<Rightarrow> bytes \<Rightarrow> capture list \<Rightarrow> str list
                \<Rightarrow> str list \<times> exn option" where
  "collect name post source_bytes [] out = (out, None)"
| "collect name post source_bytes (((start_byte, end_byte), capture) # cs) out =
     (if capture = name then
        (case decode (slice source_bytes start_byte end_byte) of
           Inl e \<Rightarrow> (out, Some e)
         | Inr text \<Rightarrow> collect name post source_bytes cs (out @ [post text]))
      else collect name post source_bytes cs out)"

definition C_QUERY :: string where
  "C_QUERY = ''(preproc_include path: [(string_literal) (system_lib_string)] @include)''"

definition PYTHON_QUERY :: string where
  "PYTHON_QUERY = ''(import_statement (dotted_name) @module)'' @ [CHR 0x0A]
                  @ ''(import_from_statement module_name: (dotted_name) @module)''"

definition BASH_QUERY :: string where
  "BASH_QUERY = ''((command name: (command_name) @cmd argument: (word) @path)''
                @ '' (#match? @cmd '' @ [CHR 0x22] @ ''source|'' @ [CHR 0x5C] @ ''.''
                @ [CHR 0x22] @ ''))''"

definition LUA_QUERY :: string where
  "LUA_QUERY = ''((function_call name: (identifier) @func arguments: (arguments (string) @mod))''
               @ '' (#eq? @func '' @ [CHR 0x22] @ ''require'' @ [CHR 0x22] @ ''))''"

definition PERL_QUERY :: string where
  "PERL_QUERY = ''((use_statement module: (scoped_identifier) @module))''"

text \<open>
  \<^verbatim>\<open>
  def _query_c_includes(source_bytes, language_id):
      language = get_language(language_id)
      parser = get_parser(language_id)
      tree = parser.parse(source_bytes)
      query = language.query("(preproc_include ...) @include)")
      includes = []
      for node, capture in query.captures(tree.root_node):
          if capture == "include":
              text = source_bytes[node.start_byte : node.end_byte].decode()
              includes.append(_strip_quotes(text))
      if not includes:
          includes.extend(_regex_c_includes(source_bytes.decode(errors="ignore")))
      return includes
  \<close>
  There is no \<^verbatim>\<open>try\<close> in this function: every exception leaves it.
\<close>

definition query_c_includes :: "'t env \<Rightarrow> bytes \<Rightarrow> string \<Rightarrow> exn + str list" where
  "query_c_includes E source_bytes language_id =
     (case ts_parse E language_id source_bytes of
        Inl e \<Rightarrow> Inl e
      | Inr tree \<Rightarrow>
          (case ts_captures E language_id C_QUERY tree of
             Inl e \<Rightarrow> Inl e
           | Inr caps \<Rightarrow>
               (case collect ''include'' strip_quotes source_bytes caps [] of
                  (includes, Some e) \<Rightarrow> Inl e
                | (includes, None) \<Rightarrow>
                    Inr (if includes = []
                         then includes @ regex_c_includes (decode_ignore source_bytes)
                         else includes))))"

text \<open>
  The other four query functions share one shape (here \<^verbatim>\<open>_query_python_imports\<close>):
  \<^verbatim>\<open>
  language = get_language(language_id)
  parser = get_parser(language_id)
  tree = parser.parse(source_bytes)
  modules = []
  try:
      query = language.query(...)
      for node, capture in query.captures(tree.root_node):
          if capture == "module":
              modules.append(source_bytes[node.start_byte : node.end_byte].decode())
  except Exception:
      modules.extend(_regex_python_imports(source_bytes.decode(errors="ignore")))
  if not modules:
      modules.extend(_regex_python_imports(source_bytes.decode(errors="ignore")))
  return modules
  \<close>
  Loading the grammar and parsing stand before the \<^verbatim>\<open>try\<close>. \<open>guarded_query\<close> is the part
  from \<^verbatim>\<open>modules = []\<close> on, with the query text, the capture name, the treatment of a
  captured text and the fallback as arguments.
\<close>

definition guarded_query :: "'t env \<Rightarrow> string \<Rightarrow> string \<Rightarrow> string \<Rightarrow> (str \<Rightarrow> str)
                              \<Rightarrow> (str \<Rightarrow> str list) \<Rightarrow> bytes \<Rightarrow> 't \<Rightarrow> str list" where
  "guarded_query E language_id query name post fallback source_bytes tree =
     (let modules =
            (case ts_captures E language_id query tree of
               Inl e \<Rightarrow> [] @ fallback (decode_ignore source_bytes)
             | Inr caps \<Rightarrow>
                 (case collect name post source_bytes caps [] of
                    (ms, Some e) \<Rightarrow> ms @ fallback (decode_ignore source_bytes)
                  | (ms, None) \<Rightarrow> ms))
      in if modules = [] then modules @ fallback (decode_ignore source_bytes) else modules)"

definition query_python_imports :: "'t env \<Rightarrow> bytes \<Rightarrow> string \<Rightarrow> exn + str list" where
  "query_python_imports E source_bytes language_id =
     (case ts_parse E language_id source_bytes of
        Inl e \<Rightarrow> Inl e
      | Inr tree \<Rightarrow>
          Inr (guarded_query E language_id PYTHON_QUERY ''module'' (\<lambda>t. t)
                 (regex_python_imports (isalnum E)) source_bytes tree))"

definition query_bash_sources :: "'t env \<Rightarrow> bytes \<Rightarrow> string \<Rightarrow> exn + str list" where
  "query_bash_sources E source_bytes language_id =
     (case ts_parse E language_id source_bytes of
        Inl e \<Rightarrow> Inl e
      | Inr tree \<Rightarrow>
          Inr (guarded_query E language_id BASH_QUERY ''path'' (\<lambda>t. t)
                 regex_bash_sources source_bytes tree))"

definition query_lua_requires :: "'t env \<Rightarrow> bytes \<Rightarrow> string \<Rightarrow> exn + str list" where
  "query_lua_requires E source_bytes language_id =
     (case ts_parse E language_id source_bytes of
        Inl e \<Rightarrow> Inl e
      | Inr tree \<Rightarrow>
          Inr (guarded_query E language_id LUA_QUERY ''mod'' strip_quotes
                 regex_lua_requires source_bytes tree))"

definition query_perl_uses :: "'t env \<Rightarrow> bytes \<Rightarrow> string \<Rightarrow> exn + str list" where
  "query_perl_uses E source_bytes language_id =
     (case ts_parse E language_id source_bytes of
        Inl e \<Rightarrow> Inl e
      | Inr tree \<Rightarrow>
          Inr (guarded_query E language_id PERL_QUERY ''module'' (\<lambda>t. t)
                 (regex_perl_uses (isalnum E)) source_bytes tree))"

section \<open>Language detection and per-file analysis\<close>

definition LANGUAGE_MAP :: "(str, string) dict" where
  "LANGUAGE_MAP =
     [(ascii ''.c'', ''c''), (ascii ''.h'', ''c''), (ascii ''.cpp'', ''cpp''),
      (ascii ''.hpp'', ''cpp''), (ascii ''.cppm'', ''cpp''), (ascii ''.S'', ''c''),
      (ascii ''.py'', ''python''), (ascii ''.sh'', ''bash''), (ascii ''.lua'', ''lua''),
      (ascii ''.pl'', ''perl'')]"

definition DEFAULT_OMIT :: "str set" where
  "DEFAULT_OMIT = {ascii ''.git'', ascii ''build'', ascii ''_build'', ascii ''third_party''}"

definition QUERY_DISPATCH :: "(string, 't env \<Rightarrow> bytes \<Rightarrow> string \<Rightarrow> exn + str list) dict" where
  "QUERY_DISPATCH =
     [(''c'', query_c_includes), (''cpp'', query_c_includes),
      (''python'', query_python_imports), (''bash'', query_bash_sources),
      (''lua'', query_lua_requires), (''perl'', query_perl_uses)]"

text \<open>
  \<^verbatim>\<open>path.name\<close> is the last part of the path. \<^verbatim>\<open>path.suffix\<close> is the name from its last dot
  on, when that dot is neither the first nor the last character of the name, and the
  empty string otherwise.
\<close>

definition path_name :: "path \<Rightarrow> str" where
  "path_name p = (if p = [] then [] else last p)"

definition rfind :: "str \<Rightarrow> nat \<Rightarrow> int" where
  "rfind s c =
     (case filter (\<lambda>i. s ! i = c) (rev [0..<length s]) of
        [] \<Rightarrow> - 1
      | i # _ \<Rightarrow> int i)"

definition suffix_of :: "path \<Rightarrow> str" where
  "suffix_of p =
     (let i = rfind (path_name p) 46
      in if 0 < i \<and> i < int (length (path_name p)) - 1
         then drop (nat i) (path_name p) else [])"

text \<open>\<^verbatim>\<open>return LANGUAGE_MAP.get(path.suffix)\<close>\<close>

definition detect_language :: "path \<Rightarrow> string option" where
  "detect_language p = dict_get LANGUAGE_MAP (suffix_of p)"

text \<open>
  \<^verbatim>\<open>
  def analyze_file(path):
      language_id = detect_language(path)
      if language_id is None:
          return None, []
      source_bytes = path.read_bytes()
      if language_id in QUERY_DISPATCH:
          dependencies = QUERY_DISPATCH[language_id](source_bytes, language_id)
      elif path.suffix == ".S":
          dependencies = _regex_asm_includes(source_bytes.decode(errors="ignore"))
      else:
          dependencies = []
      return language_id, dependencies
  \<close>
\<close>

definition analyze_file :: "'t env \<Rightarrow> path \<Rightarrow> exn + (string option \<times> str list)" where
  "analyze_file E p =
     (case detect_language p of
        None \<Rightarrow> Inr (None, [])
      | Some language_id \<Rightarrow>
          (case read_bytes E p of
             Inl e \<Rightarrow> Inl e
           | Inr source_bytes \<Rightarrow>
               (case dict_get QUERY_DISPATCH language_id of
                  Some query \<Rightarrow>
                    (case query E source_bytes language_id of
                       Inl e \<Rightarrow> Inl e
                     | Inr dependencies \<Rightarrow> Inr (Some language_id, dependencies))
                | None \<Rightarrow>
                    if suffix_of p = ascii ''.S''
                    then Inr (Some language_id, regex_asm_includes (decode_ignore source_bytes))
                    else Inr (Some language_id, []))))"

section \<open>The orchestrator\<close>

text \<open>
  \<^verbatim>\<open>
  for entry in root.rglob("*"):
      if not entry.is_file():
          continue
      if any(part in omit for part in entry.relative_to(root).parts):
          continue
      yield entry
  \<close>
\<close>

definition iter_repository_files :: "'t env \<Rightarrow> str set \<Rightarrow> path list" where
  "iter_repository_files E omit =
     map fst (filter (\<lambda>(parts, is_file). is_file \<and> \<not> list_ex (\<lambda>part. part \<in> omit) parts)
                     (rglob E))"

text \<open>\<^verbatim>\<open>str(path.relative_to(root))\<close>: the parts joined by a slash.\<close>

fun rel_path_str :: "path \<Rightarrow> str" where
  "rel_path_str [] = ascii ''.''"
| "rel_path_str [part] = part"
| "rel_path_str (part # parts) = part @ ascii ''/'' @ rel_path_str parts"

text \<open>\<^verbatim>\<open>Counter\<close>: a dictionary whose missing keys read as zero.\<close>

definition counter_get :: "(string, nat) dict \<Rightarrow> string \<Rightarrow> nat" where
  "counter_get counts k = (case dict_get counts k of None \<Rightarrow> 0 | Some n \<Rightarrow> n)"

type_synonym build_state = "(string, DependencyGraph) dict \<times> (string, nat) dict"

text \<open>
  The body of the loop of \<^verbatim>\<open>build_dependency_graph\<close>:
  \<^verbatim>\<open>
  language_id, dependencies = analyze_file(path)
  if language_id is None:
      continue
  rel_path = str(path.relative_to(root))
  graphs[language_id].add(rel_path, dependencies)
  language_counts[language_id] += 1
  \<close>
  \<^verbatim>\<open>graphs\<close> is a \<^verbatim>\<open>defaultdict(DependencyGraph)\<close>: reading \<^verbatim>\<open>graphs[language_id]\<close> creates
  the graph of a language seen for the first time.
\<close>

definition build_step :: "'t env \<Rightarrow> path \<Rightarrow> build_state \<Rightarrow> exn + build_state" where
  "build_step E p st =
     (case st of (graphs, language_counts) \<Rightarrow>
        (case analyze_file E p of
           Inl e \<Rightarrow> Inl e
         | Inr (None, dependencies) \<Rightarrow> Inr (graphs, language_counts)
         | Inr (Some language_id, dependencies) \<Rightarrow>
             (case defaultdict_get empty_graph graphs language_id of
                (graph, graphs') \<Rightarrow>
                  Inr (dict_set graphs' language_id (add graph (rel_path_str p) dependencies),
                       dict_set language_counts language_id
                         (counter_get language_counts language_id + 1)))))"

fun build_loop :: "'t env \<Rightarrow> path list \<Rightarrow> build_state \<Rightarrow> exn + build_state" where
  "build_loop E [] st = Inr st"
| "build_loop E (p # ps) st =
     (case build_step E p st of
        Inl e \<Rightarrow> Inl e
      | Inr st' \<Rightarrow> build_loop E ps st')"

definition build_dependency_graph :: "'t env \<Rightarrow> str set \<Rightarrow> exn + build_state" where
  "build_dependency_graph E omit = build_loop E (iter_repository_files E omit) ([], [])"

section \<open>The summary\<close>

text \<open>
  \<^verbatim>\<open>sorted(items, key=..., reverse=True)\<close> is stable: CPython reverses the list, sorts it
  stably in ascending order and reverses the result.
\<close>

definition sorted_reverse :: "('a \<Rightarrow> nat) \<Rightarrow> 'a list \<Rightarrow> 'a list" where
  "sorted_reverse key xs = rev (sort_key key (rev xs))"

text \<open>
  \<^verbatim>\<open>
  degree_counter = {source: len(targets) for source, targets in graph.edges.items()}
  heavy_hitters = sorted(degree_counter.items(), key=lambda item: item[1], reverse=True)[:10]
  \<close>
\<close>

definition degree_counter :: "DependencyGraph \<Rightarrow> (str, nat) dict" where
  "degree_counter graph = map (\<lambda>(source, targets). (source, fcard targets)) (edges graph)"

definition heavy_hitters :: "DependencyGraph \<Rightarrow> (str \<times> nat) list" where
  "heavy_hitters graph = take 10 (sorted_reverse (\<lambda>item. snd item) (degree_counter graph))"

record language_summary =
  ls_files :: nat
  ls_edges :: nat
  ls_top_emitters :: "(str \<times> nat) list"

record totals =
  t_languages :: nat
  t_files :: nat
  t_edges :: nat

record summary =
  s_languages :: "(string, language_summary) dict"
  s_totals :: totals

text \<open>
  \<^verbatim>\<open>
  summary = {"languages": {},
             "totals": {"languages": len(graphs),
                        "files": sum(counts.values()),
                        "edges": sum(graph.edge_count() for graph in graphs.values())}}
  for language, graph in graphs.items():
      ...
      summary["languages"][language] = {"files": counts.get(language, 0),
                                        "edges": graph.edge_count(),
                                        "top_emitters": heavy_hitters}
  \<close>
\<close>

definition summarize_graphs :: "(string, DependencyGraph) dict \<Rightarrow> (string, nat) dict \<Rightarrow> summary" where
  "summarize_graphs graphs counts =
     \<lparr>s_languages =
        map (\<lambda>(language, graph).
               (language, \<lparr>ls_files = counter_get counts language,
                           ls_edges = edge_count graph,
                           ls_top_emitters = heavy_hitters graph\<rparr>))
            graphs,
      s_totals = \<lparr>t_languages = length graphs,
                  t_files = sum_list (values_of counts),
                  t_edges = sum_list (map edge_count (values_of graphs))\<rparr>\<rparr>"

section \<open>Notions used in the statements\<close>

text \<open>The set stored for a source, empty when the source has no entry.\<close>

definition lookup :: "(str, str fset) dict \<Rightarrow> str \<Rightarrow> str fset" where
  "lookup es s = (case dict_get es s of None \<Rightarrow> {||} | Some v \<Rightarrow> v)"

text \<open>The non-empty strings of a list of targets.\<close>

definition kept :: "str list \<Rightarrow> str fset" where
  "kept ts = fset_of_list (filter (\<lambda>t. t \<noteq> []) ts)"

text \<open>
  The invariant of a graph: the sources are distinct, and each has a non-empty set of
  non-empty strings.
\<close>

definition graph_inv :: "DependencyGraph \<Rightarrow> bool" where
  "graph_inv g =
     (distinct (keys (edges g))
      \<and> list_all (\<lambda>(s, refs). refs \<noteq> {||} \<and> [] |\<notin>| refs) (edges g))"

text \<open>
  The invariant of the orchestrator's loop: the graphs and the counts have the same
  languages, in the same order, and every count is positive.
\<close>

definition build_inv :: "build_state \<Rightarrow> bool" where
  "build_inv st =
     (case st of (graphs, counts) \<Rightarrow>
        keys graphs = keys counts \<and> distinct (keys counts)
        \<and> list_all (\<lambda>(k, n). 0 < n) counts)"

text \<open>The files of a language among a list of paths.\<close>

definition files_of :: "string \<Rightarrow> path list \<Rightarrow> path list" where
  "files_of language_id ps = filter (\<lambda>p. detect_language p = Some language_id) ps"

text \<open>
  What the four guarded query functions are given, by language: the query text, the name
  of the capture, the treatment of a captured text, and the regex fallback.
\<close>

definition query_of :: "string \<Rightarrow> string" where
  "query_of language_id =
     (if language_id = ''python'' then PYTHON_QUERY
      else if language_id = ''bash'' then BASH_QUERY
      else if language_id = ''lua'' then LUA_QUERY
      else PERL_QUERY)"

definition capture_of :: "string \<Rightarrow> string" where
  "capture_of language_id =
     (if language_id = ''python'' then ''module''
      else if language_id = ''bash'' then ''path''
      else if language_id = ''lua'' then ''mod''
      else ''module'')"

definition post_of :: "string \<Rightarrow> str \<Rightarrow> str" where
  "post_of language_id text = (if language_id = ''lua'' then strip_quotes text else text)"

definition fallback_of :: "'t env \<Rightarrow> string \<Rightarrow> str \<Rightarrow> str list" where
  "fallback_of E language_id text =
     (if language_id = ''python'' then regex_python_imports (isalnum E) text
      else if language_id = ''bash'' then regex_bash_sources text
      else if language_id = ''lua'' then regex_lua_requires text
      else regex_perl_uses (isalnum E) text)"

definition guarded_language :: "string \<Rightarrow> bool" where
  "guarded_language language_id = List.member [''python'', ''bash'', ''lua'', ''perl''] language_id"

definition c_family :: "string \<Rightarrow> bool" where
  "c_family language_id = List.member [''c'', ''cpp''] language_id"

section \<open>Example inputs\<close>

text \<open>
  A concrete environment for running the script on examples: the grammar behaviour is
  given, no character beyond ASCII is alphanumeric, and the tree holds the listed regular
  files with their contents.
\<close>

definition example_env :: "(string \<Rightarrow> bytes \<Rightarrow> exn + unit)
                            \<Rightarrow> (string \<Rightarrow> string \<Rightarrow> unit \<Rightarrow> exn + capture list)
                            \<Rightarrow> (path \<times> bytes) list \<Rightarrow> unit env" where
  "example_env parse captures files =
     \<lparr>ts_parse = parse, ts_captures = captures, isalnum = (\<lambda>c. False),
      rglob = map (\<lambda>(p, content). (p, True)) files,
      read_bytes = (\<lambda>p. case dict_get files p of
                            None \<Rightarrow> Inl OSError
                          | Some content \<Rightarrow> Inr content)\<rparr>"

text \<open>The grammar parses everything; the query captures nothing, or raises.\<close>

definition parse_ok :: "string \<Rightarrow> bytes \<Rightarrow> exn + unit" where
  "parse_ok language_id source_bytes = Inr ()"

definition parse_raises :: "string \<Rightarrow> bytes \<Rightarrow> exn + unit" where
  "parse_raises language_id source_bytes = Inl TreeSitterError"

definition no_captures :: "string \<Rightarrow> string \<Rightarrow> unit \<Rightarrow> exn + capture list" where
  "no_captures language_id query tree = Inr []"

definition query_raises :: "string \<Rightarrow> string \<Rightarrow> unit \<Rightarrow> exn + capture list" where
  "query_raises language_id query tree = Inl TreeSitterError"

text \<open>The two lines \<^verbatim>\<open>#include "a.h"\<close> and \<^verbatim>\<open>#include <b.h>\<close>, and the two path tokens
  the C grammar captures in them.\<close>

definition two_includes :: bytes where
  "two_includes = ''#include '' @ [CHR 0x22] @ ''a.h'' @ [CHR 0x22, CHR 0x0A]
                  @ ''#include <b.h>'' @ [CHR 0x0A]"

definition two_include_captures :: "capture list" where
  "two_include_captures = [((9, 14), ''include''), ((24, 29), ''include'')]"

text \<open>The line \<^verbatim>\<open>%include "foo.inc"\<close> of an assembly file.\<close>

definition asm_include :: bytes where
  "asm_include = ''%include '' @ [CHR 0x22] @ ''foo.inc'' @ [CHR 0x22, CHR 0x0A]"



text \<open>
  A tree of three files: a C file with the two include lines, a Python file without any
  import, and a file whose extension \<^verbatim>\<open>.C\<close> is not registered. The grammar parses them and
  the queries capture nothing.
\<close>

definition example_tree :: "(path \<times> bytes) list" where
  "example_tree =
     [([ascii ''src'', ascii ''a.c''], two_includes),
      ([ascii ''tools'', ascii ''m.py''], ''x = 1'' @ [CHR 0x0A]),
      ([ascii ''README.C''], ''hello'')]"

definition example_run :: "unit env" where
  "example_run = example_env parse_ok no_captures example_tree"

text \<open>A query that captures the two path tokens of \<open>two_includes\<close>.\<close>

definition two_captures :: "string \<Rightarrow> string \<Rightarrow> unit \<Rightarrow> exn + capture list" where
  "two_captures language_id query tree = Inr two_include_captures"

text \<open>The lines \<^verbatim>\<open>import os\<close> and \<^verbatim>\<open>from sys import path\<close> of a Python file.\<close>

definition python_imports :: bytes where
  "python_imports = ''import os'' @ [CHR 0x0A] @ ''from sys import path'' @ [CHR 0x0A]"

text \<open>
  A Python file whose last byte is not UTF-8, and two captured nodes of it: the module name
  \<^verbatim>\<open>os\<close> and the ill-formed byte.
\<close>

definition python_bad_byte :: bytes where
  "python_bad_byte = ''import os'' @ [CHR 0x0A, CHR 0xFF]"

definition bad_byte_captures :: "string \<Rightarrow> string \<Rightarrow> unit \<Rightarrow> exn + capture list" where
  "bad_byte_captures language_id query tree = Inr [((7, 9), ''module''), ((10, 11), ''module'')]"

text \<open>
  Three environments in which an analysis raises: a tree holding one Python file with a
  parser that raises, the same tree with a file system that cannot read the file, and a
  tree holding one C file whose include path has a byte that is not UTF-8, the grammar
  capturing that path.
\<close>

definition raising_parser_example :: "unit env" where
  "raising_parser_example =
     example_env parse_raises no_captures [([ascii ''m.py''], python_imports)]"

definition unreadable_example :: "unit env" where
  "unreadable_example =
     (example_env parse_ok no_captures [([ascii ''m.py''], python_imports)])
       \<lparr>read_bytes := (\<lambda>p. Inl OSError)\<rparr>"

definition bad_include :: bytes where
  "bad_include = ''#include '' @ [CHR 0x22, CHR 0xFF] @ ''.h'' @ [CHR 0x22, CHR 0x0A]"

definition bad_include_captures :: "string \<Rightarrow> string \<Rightarrow> unit \<Rightarrow> exn + capture list" where
  "bad_include_captures language_id query tree = Inr [((9, 14), ''include'')]"

definition bad_include_example :: "unit env" where
  "bad_include_example =
     example_env parse_ok bad_include_captures [([ascii ''b'', ascii ''bad.c''], bad_include)]"

declare utf8_strict.simps [simp del]
declare utf8_ignore.simps [simp del]
declare finditer.simps [simp del]

section \<open>Facts about dictionaries\<close>

lemma dict_get_dict_set:
  "dict_get (dict_set d k v) k' = (if k' = k then Some v else dict_get d k')"
  by (induction d) auto

lemma dict_set_dict_set: "dict_set (dict_set d k v) k v' = dict_set d k v'"
  by (induction d) auto

lemma keys_dict_set:
  "keys (dict_set d k v) = (if k \<in> set (keys d) then keys d else keys d @ [k])"
  by (induction d) (force simp: keys_def)+

lemma list_all_dict_set:
  "list_all P d \<Longrightarrow> P (k, v) \<Longrightarrow> list_all P (dict_set d k v)"
  by (induction d) auto

lemma dict_get_map:
  "dict_get (map (\<lambda>(k, v). (k, f v)) d) k = map_option f (dict_get d k)"
  by (induction d) auto

lemma keys_defaultdict_set:
  "keys (dict_set (snd (defaultdict_get dflt d k)) k v) = keys (dict_set d k v)"
  by (auto simp: defaultdict_get_def keys_dict_set split: option.splits)

lemma counter_get_dict_set:
  "counter_get (dict_set c k v) k' = (if k' = k then v else counter_get c k')"
  by (simp add: counter_get_def dict_get_dict_set)

section \<open>The graph: what \<open>add\<close> stores\<close>

lemma length_sorted_list_of_fset: "length (sorted_list_of_fset s) = fcard s"
  by (simp add: sorted_list_of_fset.rep_eq fcard.rep_eq)

lemma distinct_sorted_list_of_fset: "distinct (sorted_list_of_fset s)"
  by (simp add: sorted_list_of_fset.rep_eq)

lemma count_list_distinct: "distinct xs \<Longrightarrow> x \<in> set xs \<Longrightarrow> count_list xs x = 1"
  by (induction xs) auto

lemma add_target_eq:
  "add_target s t es = (if t \<noteq> [] then dict_set es s (finsert t (lookup es s)) else es)"
  by (auto simp: add_target_def defaultdict_get_def lookup_def dict_set_dict_set
           split: option.splits)

lemma fold_add_target:
  "fold (add_target s) ts es =
     (if kept ts = {||} then es else dict_set es s (kept ts |\<union>| lookup es s))"
proof (induction ts arbitrary: es)
  case Nil
  then show ?case by (simp add: kept_def)
next
  case (Cons t ts)
  show ?case
  proof (cases "t = []")
    case True
    then show ?thesis using Cons.IH[of es] by (simp add: add_target_eq kept_def)
  next
    case False
    let ?es1 = "dict_set es s (finsert t (lookup es s))"
    have l: "lookup ?es1 s = finsert t (lookup es s)"
      by (simp add: lookup_def dict_get_dict_set)
    show ?thesis using False Cons.IH[of ?es1]
      by (simp add: add_target_eq l dict_set_dict_set kept_def)
  qed
qed

lemma add_edges:
  "edges (add g s ts) =
     (if kept ts = {||} then edges g else dict_set (edges g) s (kept ts |\<union>| lookup (edges g) s))"
  by (cases "ts = []") (simp_all add: add_def fold_add_target kept_def)

lemma add_record: "add g s ts = g\<lparr>edges := edges (add g s ts)\<rparr>"
  by (simp add: add_def)

lemma add_nothing_kept: "kept ts = {||} \<Longrightarrow> add g s ts = g"
proof -
  assume "kept ts = {||}"
  then have "edges (add g s ts) = edges g" by (simp add: add_edges)
  then have "g\<lparr>edges := edges (add g s ts)\<rparr> = g" by simp
  then show ?thesis using add_record[of g s ts] by simp
qed

lemma add_twice: "add (add g s ts) s ts = add g s ts"
proof (cases "kept ts = {||}")
  case True
  then show ?thesis by (simp add: add_nothing_kept)
next
  case False
  have e1: "edges (add g s ts) = dict_set (edges g) s (kept ts |\<union>| lookup (edges g) s)"
    using False by (simp add: add_edges)
  have eq: "edges (add (add g s ts) s ts) = edges (add g s ts)"
    using False
    by (simp add: add_edges[of "add g s ts"] e1 lookup_def dict_get_dict_set dict_set_dict_set)
  have "add (add g s ts) s ts = (add g s ts)\<lparr>edges := edges (add (add g s ts) s ts)\<rparr>"
    by (rule add_record)
  also have "\<dots> = (add g s ts)\<lparr>edges := edges (add g s ts)\<rparr>" by (simp only: eq)
  also have "\<dots> = add g s ts" by simp
  finally show ?thesis .
qed

lemma add_one_copy:
  assumes "t \<in> set ts" "t \<noteq> []"
  shows "\<exists>refs. dict_get (to_serializable (add g s ts)) s = Some refs \<and> count_list refs t = 1"
proof -
  have tX: "t |\<in>| kept ts" using assms by (simp add: kept_def fset_of_list.rep_eq)
  then have ne: "kept ts \<noteq> {||}" by auto
  have e1: "edges (add g s ts) = dict_set (edges g) s (kept ts |\<union>| lookup (edges g) s)"
    using ne by (simp add: add_edges)
  have "dict_get (to_serializable (add g s ts)) s
          = Some (sorted_list_of_fset (kept ts |\<union>| lookup (edges g) s))"
    by (simp add: to_serializable_def dict_get_map e1 dict_get_dict_set)
  moreover have "count_list (sorted_list_of_fset (kept ts |\<union>| lookup (edges g) s)) t = 1"
    using tX by (intro count_list_distinct) (simp_all add: distinct_sorted_list_of_fset)
  ultimately show ?thesis by simp
qed

lemma lookup_inv:
  "list_all (\<lambda>(s, refs). refs \<noteq> {||} \<and> [] |\<notin>| refs) es \<Longrightarrow> [] |\<notin>| lookup es s"
  by (induction es) (auto simp: lookup_def split: if_splits)

lemma add_inv: "graph_inv g \<Longrightarrow> graph_inv (add g s ts)"
  unfolding graph_inv_def
  by (auto simp: add_edges keys_dict_set kept_def fset_of_list.rep_eq
           intro!: list_all_dict_set dest: lookup_inv)

lemma add_all_inv: "graph_inv g \<Longrightarrow> graph_inv (add_all calls g)"
  unfolding add_all_def
  by (induction calls arbitrary: g) (auto simp: add_inv)

lemma empty_graph_inv: "graph_inv empty_graph"
  by (simp add: graph_inv_def empty_graph_def keys_def)

lemma kept_all_empty: "list_all (\<lambda>t. t = []) ts \<Longrightarrow> kept ts = {||}"
  by (induction ts) (auto simp: kept_def)

section \<open>Claims about the graph\<close>

text \<open>
  Claim C4. For every dependency graph, \<open>edge_count\<close> equals the sum of the lengths of
  the per-source reference lists returned by \<open>to_serializable\<close>.
\<close>

theorem edge_count_serialized:
  "edge_count g = sum_list (map (\<lambda>(source, refs). length refs) (to_serializable g))"
proof -
  have "sum_list (map fcard (map snd es))
          = sum_list (map (\<lambda>(source, refs). length refs)
                          (map (\<lambda>(key, vals). (key, sorted_list_of_fset vals)) es))"
    for es :: "(str, str fset) dict"
    by (induction es) (auto simp: length_sorted_list_of_fset)
  then show ?thesis by (simp add: edge_count_def to_serializable_def values_of_def)
qed

text \<open>
  Claim C5, as stated, fails for the empty string: \<open>add\<close> skips every falsy target, so a
  sequence holding the empty string twice leaves no copy of it, and for a new source no
  entry at all.
\<close>

theorem add_empty_string_twice:
  "dict_get (to_serializable (add empty_graph (ascii ''main.c'') [[], []])) (ascii ''main.c'')
     = None"
  by (simp add: add_def add_target_def to_serializable_def empty_graph_def)

text \<open>
  Claim C5, amended. Calling \<open>add\<close> twice with the same arguments leaves the graph in
  the same state as calling it once; \<open>add\<close> with an empty sequence changes nothing; and
  a non-empty reference string that occurs in the sequence (once, twice or more often)
  is listed exactly once for the source.
\<close>

theorem add_idempotent_dedup:
  "add (add g source refs) source refs = add g source refs
   \<and> add g source [] = g
   \<and> (r \<in> set refs \<and> r \<noteq> [] \<longrightarrow>
        (\<exists>out. dict_get (to_serializable (add g source refs)) source = Some out
               \<and> count_list out r = 1))"
proof (intro conjI impI)
  show "add (add g source refs) source refs = add g source refs" by (rule add_twice)
  show "add g source [] = g" by (simp add: add_def)
next
  assume "r \<in> set refs \<and> r \<noteq> []"
  then show "\<exists>out. dict_get (to_serializable (add g source refs)) source = Some out
                   \<and> count_list out r = 1"
    using add_one_copy[of r refs g source] by simp
qed

theorem add_idempotent_dedup_witness:
  "ascii ''a.h'' \<in> set [ascii ''a.h'', ascii ''a.h'']
   \<and> ascii ''a.h'' \<noteq> []
   \<and> (\<exists>out. dict_get (to_serializable
                (add empty_graph (ascii ''main.c'') [ascii ''a.h'', ascii ''a.h'']))
              (ascii ''main.c'') = Some out
            \<and> count_list out (ascii ''a.h'') = 1)"
  using add_idempotent_dedup[of empty_graph "ascii ''main.c''" "[ascii ''a.h'', ascii ''a.h'']"
          "ascii ''a.h''"]
  by (simp add: ascii_def)

text \<open>
  Claim C9. In every state reached from the empty graph by a sequence of calls of \<open>add\<close>,
  every source of the graph has a non-empty reference set and no reference is the empty
  string (and the sources are distinct). A call whose targets are all empty strings
  changes nothing, so it creates no entry; any other call leaves the source with exactly
  its former references and the non-empty targets.
\<close>

theorem reachable_sets_nonempty:
  "list_all (\<lambda>(source, refs). refs \<noteq> {||} \<and> [] |\<notin>| refs) (edges (add_all calls empty_graph))
   \<and> distinct (keys (edges (add_all calls empty_graph)))
   \<and> (list_all (\<lambda>t. t = []) targets \<longrightarrow> add g source targets = g)
   \<and> (\<not> list_all (\<lambda>t. t = []) targets \<longrightarrow>
        dict_get (edges (add g source targets)) source
          = Some (kept targets |\<union>| lookup (edges g) source))"
proof (intro conjI impI)
  have "graph_inv (add_all calls empty_graph)"
    using empty_graph_inv by (rule add_all_inv)
  then show "list_all (\<lambda>(source, refs). refs \<noteq> {||} \<and> [] |\<notin>| refs)
               (edges (add_all calls empty_graph))"
    and "distinct (keys (edges (add_all calls empty_graph)))"
    by (simp_all add: graph_inv_def)
next
  assume "list_all (\<lambda>t. t = []) targets"
  then show "add g source targets = g" by (simp add: kept_all_empty add_nothing_kept)
next
  assume "\<not> list_all (\<lambda>t. t = []) targets"
  then obtain t where "t \<in> set targets" "t \<noteq> []" by (auto simp: list_all_iff)
  then have "t |\<in>| kept targets" by (simp add: kept_def fset_of_list.rep_eq)
  then have "kept targets \<noteq> {||}" by auto
  then show "dict_get (edges (add g source targets)) source
               = Some (kept targets |\<union>| lookup (edges g) source)"
    by (simp add: add_edges dict_get_dict_set)
qed

theorem reachable_sets_nonempty_witness:
  "list_all (\<lambda>t. t = []) [[] :: str]
   \<and> \<not> list_all (\<lambda>t. t = []) [ascii ''x.h'', []]
   \<and> edges (add_all [(ascii ''a.c'', [ascii ''x.h'', []]), (ascii ''b.c'', [[]])] empty_graph)
       = [(ascii ''a.c'', {|ascii ''x.h''|})]
   \<and> add (add empty_graph (ascii ''a.c'') [ascii ''x.h'', []]) (ascii ''b.c'') [[]]
       = add empty_graph (ascii ''a.c'') [ascii ''x.h'', []]
   \<and> dict_get (edges (add empty_graph (ascii ''a.c'') [ascii ''x.h'', []])) (ascii ''a.c'')
       = Some {|ascii ''x.h''|}
   \<and> list_all (\<lambda>(source, refs). refs \<noteq> {||} \<and> [] |\<notin>| refs)
        (edges (add_all [(ascii ''a.c'', [ascii ''x.h'', []]), (ascii ''b.c'', [[]])] empty_graph))"
proof -
  let ?g1 = "add empty_graph (ascii ''a.c'') [ascii ''x.h'', []]"
  let ?calls = "[(ascii ''a.c'', [ascii ''x.h'', []]), (ascii ''b.c'', [[]])]"
  have e: "list_all (\<lambda>t. t = []) [[] :: str]" by simp
  have n: "\<not> list_all (\<lambda>t. t = []) [ascii ''x.h'', []]" by (simp add: ascii_def)
  have same: "add ?g1 (ascii ''b.c'') [[]] = ?g1"
    using reachable_sets_nonempty[of "[]" "[[]]" ?g1 "ascii ''b.c''"] e by blast
  have inv: "list_all (\<lambda>(source, refs). refs \<noteq> {||} \<and> [] |\<notin>| refs)
               (edges (add_all ?calls empty_graph))"
    using reachable_sets_nonempty[of ?calls "[]" empty_graph "[]"] by blast
  have "dict_get (edges ?g1) (ascii ''a.c'')
          = Some (kept [ascii ''x.h'', []] |\<union>| lookup (edges empty_graph) (ascii ''a.c''))"
    using reachable_sets_nonempty[of "[]" "[ascii ''x.h'', []]" empty_graph "ascii ''a.c''"] n
    by blast
  then have got: "dict_get (edges ?g1) (ascii ''a.c'') = Some {|ascii ''x.h''|}"
    by (simp add: kept_def lookup_def empty_graph_def ascii_def)
  have all: "add_all ?calls empty_graph = add ?g1 (ascii ''b.c'') [[]]"
    by (simp add: add_all_def)
  have "edges ?g1 = [(ascii ''a.c'', {|ascii ''x.h''|})]"
    by (simp add: add_def add_target_def defaultdict_get_def empty_graph_def ascii_def)
  then have ed: "edges (add_all ?calls empty_graph) = [(ascii ''a.c'', {|ascii ''x.h''|})]"
    using all same by simp
  show ?thesis using e n ed same got inv by blast
qed

section \<open>Claims about the summary\<close>


















section \<open>Claims about the orchestrator\<close>

lemma dict_get_None_iff: "dict_get d k = None \<longleftrightarrow> k \<notin> set (keys d)"
  by (induction d) (auto simp: keys_def split: if_splits)

lemma analyze_file_language:
  "analyze_file E p = Inr (l, deps) \<Longrightarrow> l = detect_language p"
  by (auto simp: analyze_file_def split: option.splits sum.splits if_splits)

lemma analyze_file_unsupported:
  "detect_language p = None \<Longrightarrow> analyze_file E p = Inr (None, [])"
  by (simp add: analyze_file_def)

lemma build_step_skip:
  "detect_language p = None \<Longrightarrow> build_step E p st = Inr st"
  by (cases st) (simp add: build_step_def analyze_file_unsupported)

lemma build_step_supported:
  "analyze_file E p = Inr (Some L, deps) \<Longrightarrow>
   build_step E p (graphs, counts) =
     Inr (dict_set (snd (defaultdict_get empty_graph graphs L)) L
            (add (fst (defaultdict_get empty_graph graphs L)) (rel_path_str p) deps),
          dict_set counts L (counter_get counts L + 1))"
  by (simp add: build_step_def split: prod.splits)

lemma build_step_cases:
  assumes "build_step E p (graphs, counts) = Inr (graphs', counts')"
  shows "(detect_language p = None \<and> graphs' = graphs \<and> counts' = counts) \<or>
   (\<exists>L deps. detect_language p = Some L \<and> analyze_file E p = Inr (Some L, deps)
      \<and> graphs' = dict_set (snd (defaultdict_get empty_graph graphs L)) L
            (add (fst (defaultdict_get empty_graph graphs L)) (rel_path_str p) deps)
      \<and> counts' = dict_set counts L (counter_get counts L + 1))"
proof (cases "detect_language p")
  case None
  then show ?thesis using assms build_step_skip[of p E "(graphs, counts)"] by simp
next
  case (Some L)
  from assms obtain r where r: "analyze_file E p = Inr r"
    by (cases "analyze_file E p") (auto simp: build_step_def)
  obtain l deps where ld: "r = (l, deps)" by (cases r)
  have "l = Some L" using analyze_file_language[of E p l deps] r ld Some by simp
  then have a: "analyze_file E p = Inr (Some L, deps)" using r ld by simp
  from build_step_supported[OF a, of graphs counts] assms Some a show ?thesis by simp
qed

lemma build_loop_append:
  "build_loop E (xs @ ys) st =
     (case build_loop E xs st of Inl e \<Rightarrow> Inl e | Inr st' \<Rightarrow> build_loop E ys st')"
  by (induction xs arbitrary: st) (auto split: sum.splits)

lemma build_loop_total:
  "list_all (\<lambda>p. \<not> isl (analyze_file E p)) ps \<Longrightarrow> \<exists>st'. build_loop E ps st = Inr st'"
proof (induction ps arbitrary: st)
  case Nil
  then show ?case by simp
next
  case (Cons p ps)
  obtain graphs counts where st: "st = (graphs, counts)" by (cases st)
  from Cons.prems obtain r where r: "analyze_file E p = Inr r"
    by (cases "analyze_file E p") auto
  obtain l deps where ld: "r = (l, deps)" by (cases r)
  have "\<exists>st1. build_step E p st = Inr st1"
    using r ld st by (cases l) (auto simp: build_step_def split: prod.splits)
  then obtain st1 where "build_step E p st = Inr st1" ..
  moreover have "\<exists>st'. build_loop E ps st1 = Inr st'" using Cons by simp
  ultimately show ?case by simp
qed

lemma build_loop_counts:
  "build_loop E ps (graphs, counts) = Inr (graphs', counts') \<Longrightarrow>
   counter_get counts' L = counter_get counts L + length (files_of L ps)"
proof (induction ps arbitrary: graphs counts)
  case Nil
  then show ?case by (simp add: files_of_def)
next
  case (Cons p ps)
  from Cons.prems obtain g1 c1 where s1: "build_step E p (graphs, counts) = Inr (g1, c1)"
    and l1: "build_loop E ps (g1, c1) = Inr (graphs', counts')"
    by (auto split: sum.splits)
  from build_step_cases[OF s1]
  have "counter_get c1 L = counter_get counts L + (if detect_language p = Some L then 1 else 0)"
    by (auto simp: counter_get_dict_set)
  with Cons.IH[OF l1] show ?case by (simp add: files_of_def)
qed

lemma build_step_inv:
  assumes inv: "build_inv st" and step: "build_step E p st = Inr st'"
  shows "build_inv st'"
proof -
  obtain graphs counts where st: "st = (graphs, counts)" by (cases st)
  obtain graphs' counts' where st': "st' = (graphs', counts')" by (cases st')
  from inv st have k: "keys graphs = keys counts" and d: "distinct (keys counts)"
    and pos: "list_all (\<lambda>(k, n). 0 < n) counts"
    by (simp_all add: build_inv_def)
  from build_step_cases[OF step[unfolded st st']] show ?thesis
  proof
    assume "detect_language p = None \<and> graphs' = graphs \<and> counts' = counts"
    then show ?thesis using inv st st' by simp
  next
    assume "\<exists>L deps. detect_language p = Some L \<and> analyze_file E p = Inr (Some L, deps)
      \<and> graphs' = dict_set (snd (defaultdict_get empty_graph graphs L)) L
            (add (fst (defaultdict_get empty_graph graphs L)) (rel_path_str p) deps)
      \<and> counts' = dict_set counts L (counter_get counts L + 1)"
    then obtain L deps where
      g': "graphs' = dict_set (snd (defaultdict_get empty_graph graphs L)) L
            (add (fst (defaultdict_get empty_graph graphs L)) (rel_path_str p) deps)"
      and c': "counts' = dict_set counts L (counter_get counts L + 1)" by blast
    have "keys graphs' = keys (dict_set graphs L
            (add (fst (defaultdict_get empty_graph graphs L)) (rel_path_str p) deps))"
      unfolding g' by (rule keys_defaultdict_set)
    then have k': "keys graphs' = keys counts'" using k by (simp add: c' keys_dict_set)
    have d': "distinct (keys counts')" using d by (simp add: c' keys_dict_set)
    have pos': "list_all (\<lambda>(k, n). 0 < n) counts'" unfolding c'
      using pos by (rule list_all_dict_set) simp
    show ?thesis using k' d' pos' by (simp add: st' build_inv_def)
  qed
qed

lemma build_loop_inv:
  "build_inv st \<Longrightarrow> build_loop E ps st = Inr st' \<Longrightarrow> build_inv st'"
  by (induction ps arbitrary: st) (auto split: sum.splits dest: build_step_inv)

lemma build_inv_positive:
  assumes "build_inv (graphs, counts)"
  shows "(0 < counter_get counts L) = (L \<in> set (keys graphs))"
proof -
  from assms have k: "keys graphs = keys counts" and p: "list_all (\<lambda>(k, n). 0 < n) counts"
    by (simp_all add: build_inv_def)
  have "(0 < counter_get counts L) = (L \<in> set (keys counts))" using p
    by (induction counts) (auto simp: counter_get_def keys_def)
  then show ?thesis using k by simp
qed

lemma build_result_inv:
  "build_dependency_graph E omit = Inr (graphs, counts) \<Longrightarrow> build_inv (graphs, counts)"
  unfolding build_dependency_graph_def
  by (rule build_loop_inv[of "([], [])"]) (simp_all add: build_inv_def keys_def)

lemma build_result_counts:
  "build_dependency_graph E omit = Inr (graphs, counts) \<Longrightarrow>
   counter_get counts L = length (files_of L (iter_repository_files E omit))"
  unfolding build_dependency_graph_def
  using build_loop_counts[of E "iter_repository_files E omit" "[]" "[]" graphs counts L]
  by (simp add: counter_get_def)

lemma detect_language_registered:
  "(detect_language p = None) = (suffix_of p \<notin> set (keys LANGUAGE_MAP))"
  by (simp add: detect_language_def dict_get_None_iff)

text \<open>
  Claim C7. A file whose extension is not a key of the language map has no language; its
  analysis returns the empty answer for every environment (so without reading the file),
  the orchestrator's step leaves the graphs and the counts as they are, and a run over a
  list of files is the run over the list without that file. The language of a file is
  the value looked up under its extension, so two files with the same extension have the
  same language. The lookup distinguishes upper and lower case: \<^verbatim>\<open>.c\<close> and \<^verbatim>\<open>.S\<close> are
  registered, \<^verbatim>\<open>.C\<close> and \<^verbatim>\<open>.s\<close> are not; a name that is only an extension has none.
\<close>

theorem unregistered_extension_skipped:
  "(suffix_of p \<notin> set (keys LANGUAGE_MAP) \<longrightarrow>
      detect_language p = None
      \<and> analyze_file E p = Inr (None, [])
      \<and> build_step E p (graphs, counts) = Inr (graphs, counts)
      \<and> build_loop E (ps @ p # qs) st = build_loop E (ps @ qs) st)
   \<and> detect_language q = dict_get LANGUAGE_MAP (suffix_of q)
   \<and> (suffix_of q = suffix_of q' \<longrightarrow> detect_language q = detect_language q')
   \<and> detect_language [ascii ''main.c''] = Some ''c''
   \<and> detect_language [ascii ''main.C''] = None
   \<and> detect_language [ascii ''boot.S''] = Some ''c''
   \<and> detect_language [ascii ''boot.s''] = None
   \<and> detect_language [ascii ''.py''] = None"
proof (intro conjI impI)
  show "detect_language [ascii ''main.c''] = Some ''c''" by code_simp
  show "detect_language [ascii ''main.C''] = None" by code_simp
  show "detect_language [ascii ''boot.S''] = Some ''c''" by code_simp
  show "detect_language [ascii ''boot.s''] = None" by code_simp
  show "detect_language [ascii ''.py''] = None" by code_simp
next
  assume "suffix_of p \<notin> set (keys LANGUAGE_MAP)"
  then show none: "detect_language p = None" by (simp add: detect_language_registered)
  then show "analyze_file E p = Inr (None, [])" by (rule analyze_file_unsupported)
  from none show "build_step E p (graphs, counts) = Inr (graphs, counts)"
    by (rule build_step_skip)
  from none show "build_loop E (ps @ p # qs) st = build_loop E (ps @ qs) st"
    by (simp add: build_loop_append build_step_skip split: sum.splits)
next
  show "detect_language q = dict_get LANGUAGE_MAP (suffix_of q)" by (simp add: detect_language_def)
  show "detect_language q = detect_language q'" if "suffix_of q = suffix_of q'"
    using that by (simp add: detect_language_def)
qed

lemma build_step_raises:
  "analyze_file E p = Inl e \<Longrightarrow> build_step E p st = Inl e"
  by (cases st) (simp add: build_step_def)

text \<open>
  Claim C8, as stated, fails. The orchestrator has no handler around the analysis of a
  file, so when the analysis of an eligible file raises (here: the parser raises for a
  Python file, or the file cannot be read) the loop body ends before the count is raised,
  and the pass raises instead of returning counts.
\<close>

theorem raising_analysis_not_counted:
  "detect_language [ascii ''m.py''] = Some ''python''
   \<and> iter_repository_files raising_parser_example DEFAULT_OMIT = [[ascii ''m.py'']]
   \<and> build_step raising_parser_example [ascii ''m.py''] ([], []) = Inl TreeSitterError
   \<and> build_dependency_graph raising_parser_example DEFAULT_OMIT = Inl TreeSitterError
   \<and> iter_repository_files unreadable_example DEFAULT_OMIT = [[ascii ''m.py'']]
   \<and> build_step unreadable_example [ascii ''m.py''] ([], []) = Inl OSError
   \<and> build_dependency_graph unreadable_example DEFAULT_OMIT = Inl OSError"
  by code_simp

text \<open>
  Claim C8, amended. When the analysis of a file of a supported language returns, with
  whatever list of references (the empty one included), the orchestrator's step raises
  the count of that language by exactly one and leaves the other counts alone. A pass in
  which no analysis raises returns, and the counts a pass returns are, for every
  language, the number of eligible files of that language. When the analysis of a file
  raises, the step and the pass from that file on raise the same exception and no count
  is returned.
\<close>

theorem supported_file_counted:
  "(analyze_file E p = Inr (Some L, deps) \<longrightarrow>
      detect_language p = Some L
      \<and> (\<exists>graphs'. build_step E p (graphs0, counts0)
                      = Inr (graphs', dict_set counts0 L (counter_get counts0 L + 1)))
      \<and> counter_get (dict_set counts0 L (counter_get counts0 L + 1)) L = counter_get counts0 L + 1
      \<and> (L' \<noteq> L \<longrightarrow>
           counter_get (dict_set counts0 L (counter_get counts0 L + 1)) L' = counter_get counts0 L'))
   \<and> (list_all (\<lambda>p. \<not> isl (analyze_file E p)) (iter_repository_files E omit) \<longrightarrow>
        (\<exists>graphs counts. build_dependency_graph E omit = Inr (graphs, counts)))
   \<and> (build_dependency_graph E omit = Inr (graphs, counts) \<longrightarrow>
        counter_get counts K = length (files_of K (iter_repository_files E omit)))
   \<and> (analyze_file E p = Inl e \<longrightarrow>
        build_step E p (graphs0, counts0) = Inl e
        \<and> build_loop E (p # ps) (graphs0, counts0) = Inl e)"
proof (intro conjI impI)
  assume a: "analyze_file E p = Inr (Some L, deps)"
  show "detect_language p = Some L" using analyze_file_language[OF a] by simp
  show "\<exists>graphs'. build_step E p (graphs0, counts0)
                      = Inr (graphs', dict_set counts0 L (counter_get counts0 L + 1))"
    using build_step_supported[OF a, of graphs0 counts0] by simp
  show "counter_get (dict_set counts0 L (counter_get counts0 L + 1)) L = counter_get counts0 L + 1"
    by (simp add: counter_get_dict_set)
  show "counter_get (dict_set counts0 L (counter_get counts0 L + 1)) L' = counter_get counts0 L'"
    if "L' \<noteq> L" using that by (simp add: counter_get_dict_set)
next
  assume "list_all (\<lambda>p. \<not> isl (analyze_file E p)) (iter_repository_files E omit)"
  then have "\<exists>st'. build_loop E (iter_repository_files E omit) ([], []) = Inr st'"
    by (rule build_loop_total)
  then show "\<exists>graphs counts. build_dependency_graph E omit = Inr (graphs, counts)"
    by (auto simp: build_dependency_graph_def)
next
  assume "build_dependency_graph E omit = Inr (graphs, counts)"
  then show "counter_get counts K = length (files_of K (iter_repository_files E omit))"
    by (rule build_result_counts)
next
  assume r: "analyze_file E p = Inl e"
  show "build_step E p (graphs0, counts0) = Inl e" using r by (rule build_step_raises)
  then show "build_loop E (p # ps) (graphs0, counts0) = Inl e" by simp
qed

text \<open>
  Claim C10. After a pass that returns, the languages that have a graph are exactly the
  languages with a positive file count (in the same order, each once), and these are the
  languages with at least one eligible file. The summary has one entry for each of them,
  its total number of languages is their number, and the entry of a language carries its
  file count, whatever the number of its references.
\<close>

theorem graphs_match_counts:
  "build_dependency_graph E omit = Inr (graphs, counts) \<longrightarrow>
     keys graphs = keys counts
     \<and> distinct (keys graphs)
     \<and> set (keys graphs) = {L. 0 < counter_get counts L}
     \<and> (0 < counter_get counts L) = (files_of L (iter_repository_files E omit) \<noteq> [])
     \<and> (dict_get graphs L \<noteq> None) = (files_of L (iter_repository_files E omit) \<noteq> [])
     \<and> keys (s_languages (summarize_graphs graphs counts)) = keys graphs
     \<and> t_languages (s_totals (summarize_graphs graphs counts)) = card {L. 0 < counter_get counts L}
     \<and> map_option ls_files (dict_get (s_languages (summarize_graphs graphs counts)) L)
         = map_option (\<lambda>graph. length (files_of L (iter_repository_files E omit)))
                      (dict_get graphs L)"
proof
  assume run: "build_dependency_graph E omit = Inr (graphs, counts)"
  have inv: "build_inv (graphs, counts)" using run by (rule build_result_inv)
  have cnt: "counter_get counts K = length (files_of K (iter_repository_files E omit))" for K
    using run by (rule build_result_counts)
  have k: "keys graphs = keys counts" and d: "distinct (keys graphs)"
    using inv by (simp_all add: build_inv_def)
  have s: "set (keys graphs) = {L. 0 < counter_get counts L}"
    using build_inv_positive[OF inv] by auto
  have p: "(0 < counter_get counts L) = (files_of L (iter_repository_files E omit) \<noteq> [])"
    by (simp add: cnt)
  have g: "(dict_get graphs L \<noteq> None) = (files_of L (iter_repository_files E omit) \<noteq> [])"
    using build_inv_positive[OF inv, of L] p by (simp add: dict_get_None_iff)
  have ks: "keys (s_languages (summarize_graphs graphs counts)) = keys graphs"
    by (simp add: summarize_graphs_def keys_def case_prod_beta comp_def)
  have "length graphs = card (set (keys graphs))"
    using d distinct_card[of "keys graphs"] by (simp add: keys_def)
  then have t: "t_languages (s_totals (summarize_graphs graphs counts))
                  = card {L. 0 < counter_get counts L}"
    using s by (simp add: summarize_graphs_def)
  have "dict_get (map (\<lambda>(language, graph). (language, f language graph)) gs) L
          = map_option (f L) (dict_get gs L)"
    for f :: "string \<Rightarrow> DependencyGraph \<Rightarrow> language_summary" and gs
    by (induction gs) auto
  then have f: "map_option ls_files (dict_get (s_languages (summarize_graphs graphs counts)) L)
         = map_option (\<lambda>graph. length (files_of L (iter_repository_files E omit)))
                      (dict_get graphs L)"
    by (simp add: summarize_graphs_def cnt option.map_comp comp_def)
  show "keys graphs = keys counts
     \<and> distinct (keys graphs)
     \<and> set (keys graphs) = {L. 0 < counter_get counts L}
     \<and> (0 < counter_get counts L) = (files_of L (iter_repository_files E omit) \<noteq> [])
     \<and> (dict_get graphs L \<noteq> None) = (files_of L (iter_repository_files E omit) \<noteq> [])
     \<and> keys (s_languages (summarize_graphs graphs counts)) = keys graphs
     \<and> t_languages (s_totals (summarize_graphs graphs counts)) = card {L. 0 < counter_get counts L}
     \<and> map_option ls_files (dict_get (s_languages (summarize_graphs graphs counts)) L)
         = map_option (\<lambda>graph. length (files_of L (iter_repository_files E omit)))
                      (dict_get graphs L)"
    using k d s p g ks t f by blast
qed

section \<open>The example tree\<close>

lemma example_files:
  "iter_repository_files example_run DEFAULT_OMIT
     = [[ascii ''src'', ascii ''a.c''], [ascii ''tools'', ascii ''m.py''], [ascii ''README.C'']]"
  by code_simp

lemma example_analyze_c:
  "analyze_file example_run [ascii ''src'', ascii ''a.c'']
     = Inr (Some ''c'', [ascii ''a.h'', ascii ''b.h''])"
  by code_simp

lemma example_analyze_python:
  "analyze_file example_run [ascii ''tools'', ascii ''m.py''] = Inr (Some ''python'', [])"
  by code_simp

lemma example_unregistered: "suffix_of [ascii ''README.C''] \<notin> set (keys LANGUAGE_MAP)"
  by code_simp

lemma example_analyze_unregistered:
  "analyze_file example_run [ascii ''README.C''] = Inr (None, [])"
  by code_simp

text \<open>The function for C and C++ decodes the captured path outside any \<^verbatim>\<open>try\<close>.\<close>

lemma example_bad_include:
  "detect_language [ascii ''b'', ascii ''bad.c''] = Some ''c''
   \<and> analyze_file bad_include_example [ascii ''b'', ascii ''bad.c''] = Inl UnicodeDecodeError
   \<and> build_dependency_graph bad_include_example DEFAULT_OMIT = Inl UnicodeDecodeError"
  by code_simp

lemma example_build:
  "build_dependency_graph example_run DEFAULT_OMIT
     = Inr ([(''c'', \<lparr>edges = [(ascii ''src/a.c'', {|ascii ''a.h'', ascii ''b.h''|})]\<rparr>),
             (''python'', \<lparr>edges = []\<rparr>)],
            [(''c'', 1), (''python'', 1)])"
  by code_simp

theorem unregistered_extension_skipped_witness:
  "suffix_of [ascii ''README.C''] \<notin> set (keys LANGUAGE_MAP)
   \<and> detect_language [ascii ''README.C''] = None
   \<and> analyze_file example_run [ascii ''README.C''] = Inr (None, [])
   \<and> build_step example_run [ascii ''README.C''] ([], [(''c'', 1)]) = Inr ([], [(''c'', 1)])
   \<and> build_loop example_run [[ascii ''README.C'']] ([], []) = Inr ([], [])
   \<and> suffix_of [ascii ''docs'', ascii ''README.C''] = suffix_of [ascii ''README.C'']
   \<and> detect_language [ascii ''docs'', ascii ''README.C''] = detect_language [ascii ''README.C'']"
proof -
  have same: "suffix_of [ascii ''docs'', ascii ''README.C''] = suffix_of [ascii ''README.C'']"
    by code_simp
  note inst =
    unregistered_extension_skipped[of "[ascii ''README.C'']" example_run "[]" "[(''c'', 1)]"
      "[]" "[]" "([], [])" "[ascii ''docs'', ascii ''README.C'']" "[ascii ''README.C'']"]
  from inst example_unregistered
  have a: "detect_language [ascii ''README.C''] = None"
    and b: "analyze_file example_run [ascii ''README.C''] = Inr (None, [])"
    and c: "build_step example_run [ascii ''README.C''] ([], [(''c'', 1)]) = Inr ([], [(''c'', 1)])"
    and l1: "build_loop example_run ([] @ [ascii ''README.C''] # []) ([], [])
               = build_loop example_run ([] @ []) ([], [])"
    by blast+
  have l2: "build_loop example_run [[ascii ''README.C'']] ([], []) = Inr ([], [])"
    using l1 by (simp only: append_Nil build_loop.simps(1))
  from inst same
  have d: "detect_language [ascii ''docs'', ascii ''README.C''] = detect_language [ascii ''README.C'']"
    by blast
  show ?thesis using example_unregistered a b c l2 same d by blast
qed

theorem supported_file_counted_witness:
  "analyze_file example_run [ascii ''tools'', ascii ''m.py''] = Inr (Some ''python'', [])
   \<and> (\<exists>graphs'. build_step example_run [ascii ''tools'', ascii ''m.py''] ([], [(''c'', 1)])
                    = Inr (graphs', [(''c'', 1), (''python'', 1)]))
   \<and> ''c'' \<noteq> ''python''
   \<and> list_all (\<lambda>p. \<not> isl (analyze_file example_run p))
        (iter_repository_files example_run DEFAULT_OMIT)
   \<and> (\<exists>graphs. build_dependency_graph example_run DEFAULT_OMIT
                   = Inr (graphs, [(''c'', 1), (''python'', 1)]))
   \<and> length (files_of ''python'' (iter_repository_files example_run DEFAULT_OMIT)) = 1
   \<and> analyze_file raising_parser_example [ascii ''m.py''] = Inl TreeSitterError
   \<and> build_step raising_parser_example [ascii ''m.py''] ([], []) = Inl TreeSitterError
   \<and> build_loop raising_parser_example [[ascii ''m.py'']] ([], []) = Inl TreeSitterError"
proof -
  have ar: "analyze_file raising_parser_example [ascii ''m.py''] = Inl TreeSitterError"
    by code_simp
  have sr: "build_step raising_parser_example [ascii ''m.py''] ([], []) = Inl TreeSitterError
            \<and> build_loop raising_parser_example ([ascii ''m.py''] # []) ([], [])
                = Inl TreeSitterError"
    using supported_file_counted[where E = raising_parser_example and p = "[ascii ''m.py'']"
            and e = TreeSitterError and ?graphs0.0 = "[]" and ?counts0.0 = "[]" and ps = "[]"] ar
    by blast
  let ?G = "[(''c'', \<lparr>edges = [(ascii ''src/a.c'', {|ascii ''a.h'', ascii ''b.h''|})]\<rparr>),
             (''python'', \<lparr>edges = []\<rparr>)]"
  note inst = supported_file_counted[of example_run "[ascii ''tools'', ascii ''m.py'']" "''python''"
            "[]" "[]" "[(''c'', 1)]" "''c''" DEFAULT_OMIT ?G "[(''c'', 1), (''python'', 1)]"
            "''python''"]
  have step: "\<exists>graphs'. build_step example_run [ascii ''tools'', ascii ''m.py''] ([], [(''c'', 1)])
                    = Inr (graphs', [(''c'', 1), (''python'', 1)])"
    using inst example_analyze_python by (simp add: counter_get_def)
  have all: "list_all (\<lambda>p. \<not> isl (analyze_file example_run p))
        (iter_repository_files example_run DEFAULT_OMIT)"
    by (simp add: example_files example_analyze_c example_analyze_python
          example_analyze_unregistered)
  have n: "length (files_of ''python'' (iter_repository_files example_run DEFAULT_OMIT)) = 1"
    using inst example_build by (simp add: counter_get_def)
  show ?thesis using example_analyze_python step all n example_build ar sr by simp
qed

theorem graphs_match_counts_witness:
  "build_dependency_graph example_run DEFAULT_OMIT
     = Inr ([(''c'', \<lparr>edges = [(ascii ''src/a.c'', {|ascii ''a.h'', ascii ''b.h''|})]\<rparr>),
             (''python'', \<lparr>edges = []\<rparr>)],
            [(''c'', 1), (''python'', 1)])
   \<and> edge_count \<lparr>edges = []\<rparr> = 0
   \<and> files_of ''python'' (iter_repository_files example_run DEFAULT_OMIT) \<noteq> []
   \<and> keys (s_languages (summarize_graphs
              [(''c'', \<lparr>edges = [(ascii ''src/a.c'', {|ascii ''a.h'', ascii ''b.h''|})]\<rparr>),
               (''python'', \<lparr>edges = []\<rparr>)]
              [(''c'', 1), (''python'', 1)])) = [''c'', ''python'']
   \<and> card {L. 0 < counter_get [(''c'', 1), (''python'', 1)] L} = 2"
proof -
  let ?G = "[(''c'', \<lparr>edges = [(ascii ''src/a.c'', {|ascii ''a.h'', ascii ''b.h''|})]\<rparr>),
             (''python'', \<lparr>edges = []\<rparr>)]"
  let ?C = "[(''c'', 1::nat), (''python'', 1)]"
  note inst = graphs_match_counts[of example_run DEFAULT_OMIT ?G ?C "''python''",
               THEN mp, OF example_build]
  have f: "files_of ''python'' (iter_repository_files example_run DEFAULT_OMIT) \<noteq> []"
    using inst by (simp add: counter_get_def)
  have k: "keys (s_languages (summarize_graphs ?G ?C)) = [''c'', ''python'']"
    using inst by (simp add: keys_def)
  have "t_languages (s_totals (summarize_graphs ?G ?C)) = 2"
    by (simp add: summarize_graphs_def)
  then have c: "card {L. 0 < counter_get ?C L} = 2" using inst by simp
  show ?thesis using example_build f k c by (simp add: edge_count_def values_of_def)
qed

section \<open>Claims about extraction\<close>

lemma dispatch:
  "dict_get QUERY_DISPATCH ''c'' = Some query_c_includes"
  "dict_get QUERY_DISPATCH ''cpp'' = Some query_c_includes"
  "dict_get QUERY_DISPATCH ''python'' = Some query_python_imports"
  "dict_get QUERY_DISPATCH ''bash'' = Some query_bash_sources"
  "dict_get QUERY_DISPATCH ''lua'' = Some query_lua_requires"
  "dict_get QUERY_DISPATCH ''perl'' = Some query_perl_uses"
  by (simp_all add: QUERY_DISPATCH_def)

lemma analyze_file_via:
  "detect_language p = Some L \<Longrightarrow> read_bytes E p = Inr src \<Longrightarrow>
   dict_get QUERY_DISPATCH L = Some q \<Longrightarrow>
   analyze_file E p = (case q E src L of Inl e \<Rightarrow> Inl e | Inr deps \<Rightarrow> Inr (Some L, deps))"
  by (simp add: analyze_file_def)

lemma collect_nothing:
  "filter (\<lambda>c. snd c = nm) caps = [] \<Longrightarrow> collect nm post src caps out = (out, None)"
  by (induction nm post src caps out rule: collect.induct) (auto split: if_splits)

lemma collect_two_includes:
  "collect ''include'' strip_quotes two_includes two_include_captures []
     = ([ascii ''a.h'', ascii ''b.h''], None)"
  by code_simp

lemma regex_two_includes:
  "regex_c_includes (decode_ignore two_includes) = [ascii ''a.h'', ascii ''b.h'']"
  by code_simp

lemma query_c_two_includes:
  assumes "ts_parse E L two_includes = Inr tree"
    and "ts_captures E L C_QUERY tree = Inr caps"
    and "caps = two_include_captures \<or> filter (\<lambda>c. snd c = ''include'') caps = []"
  shows "query_c_includes E two_includes L = Inr [ascii ''a.h'', ascii ''b.h'']"
  using assms(3)
proof
  assume "caps = two_include_captures"
  then show ?thesis using assms(1,2)
    by (simp add: query_c_includes_def collect_two_includes ascii_def)
next
  assume "filter (\<lambda>c. snd c = ''include'') caps = []"
  then have "collect ''include'' strip_quotes two_includes caps [] = ([], None)"
    by (rule collect_nothing)
  then show ?thesis using assms(1,2)
    by (simp add: query_c_includes_def regex_two_includes)
qed

text \<open>
  Claim C6. For a C-family file (language \<^verbatim>\<open>c\<close> or \<^verbatim>\<open>cpp\<close>) whose content is the two lines
  \<^verbatim>\<open>#include "a.h"\<close> and \<^verbatim>\<open>#include <b.h>\<close>, the extracted references are \<^verbatim>\<open>a.h\<close> and
  \<^verbatim>\<open>b.h\<close>, without quotes and angle brackets, and the set recorded for the file is
  exactly these two: both when the grammar captures the two path tokens and when it
  captures no include, in which case the regex fallback finds them.
\<close>

theorem c_includes_extracted:
  assumes "detect_language p = Some L" and "c_family L"
    and "read_bytes E p = Inr two_includes"
    and "ts_parse E L two_includes = Inr tree"
    and "ts_captures E L C_QUERY tree = Inr caps"
    and "caps = two_include_captures \<or> filter (\<lambda>c. snd c = ''include'') caps = []"
  shows "analyze_file E p = Inr (Some L, [ascii ''a.h'', ascii ''b.h''])
         \<and> edges (add empty_graph (rel_path_str p) [ascii ''a.h'', ascii ''b.h''])
             = [(rel_path_str p, {|ascii ''a.h'', ascii ''b.h''|})]"
proof
  have q: "query_c_includes E two_includes L = Inr [ascii ''a.h'', ascii ''b.h'']"
    using assms(4,5,6) by (rule query_c_two_includes)
  have "L = ''c'' \<or> L = ''cpp''" using assms(2) by (auto simp: c_family_def)
  then have "analyze_file E p
               = (case query_c_includes E two_includes L of
                    Inl e \<Rightarrow> Inl e | Inr deps \<Rightarrow> Inr (Some L, deps))"
    using analyze_file_via[OF assms(1,3), of query_c_includes] dispatch(1,2) by blast
  then show "analyze_file E p = Inr (Some L, [ascii ''a.h'', ascii ''b.h''])"
    using q by simp
  show "edges (add empty_graph (rel_path_str p) [ascii ''a.h'', ascii ''b.h''])
             = [(rel_path_str p, {|ascii ''a.h'', ascii ''b.h''|})]"
    by (simp add: add_def add_target_def defaultdict_get_def empty_graph_def ascii_def
          finsert_commute)
qed

theorem c_includes_extracted_witness:
  "detect_language [ascii ''src'', ascii ''a.c''] = Some ''c''
   \<and> c_family ''c''
   \<and> read_bytes example_run [ascii ''src'', ascii ''a.c''] = Inr two_includes
   \<and> ts_captures example_run ''c'' C_QUERY () = Inr []
   \<and> analyze_file example_run [ascii ''src'', ascii ''a.c'']
       = Inr (Some ''c'', [ascii ''a.h'', ascii ''b.h''])
   \<and> ts_captures (example_env parse_ok two_captures example_tree) ''c'' C_QUERY ()
       = Inr two_include_captures
   \<and> analyze_file (example_env parse_ok two_captures example_tree) [ascii ''src'', ascii ''a.c'']
       = Inr (Some ''c'', [ascii ''a.h'', ascii ''b.h''])
   \<and> edges (add empty_graph (ascii ''src/a.c'') [ascii ''a.h'', ascii ''b.h''])
       = [(ascii ''src/a.c'', {|ascii ''a.h'', ascii ''b.h''|})]"
proof -
  let ?p = "[ascii ''src'', ascii ''a.c'']"
  let ?E2 = "example_env parse_ok two_captures example_tree"
  have d: "detect_language ?p = Some ''c''" by code_simp
  have f: "c_family ''c''" by (simp add: c_family_def)
  have r1: "read_bytes example_run ?p = Inr two_includes" by code_simp
  have r2: "read_bytes ?E2 ?p = Inr two_includes" by code_simp
  have p1: "ts_parse example_run ''c'' two_includes = Inr ()"
    by (simp add: example_run_def example_env_def parse_ok_def)
  have p2: "ts_parse ?E2 ''c'' two_includes = Inr ()"
    by (simp add: example_env_def parse_ok_def)
  have c1: "ts_captures example_run ''c'' C_QUERY () = Inr []"
    by (simp add: example_run_def example_env_def no_captures_def)
  have c2: "ts_captures ?E2 ''c'' C_QUERY () = Inr two_include_captures"
    by (simp add: example_env_def two_captures_def)
  have rel: "rel_path_str ?p = ascii ''src/a.c''" by code_simp
  have a1: "analyze_file example_run ?p = Inr (Some ''c'', [ascii ''a.h'', ascii ''b.h''])"
    using c_includes_extracted[OF d f r1 p1 c1] by simp
  have a2: "analyze_file ?E2 ?p = Inr (Some ''c'', [ascii ''a.h'', ascii ''b.h''])
            \<and> edges (add empty_graph (rel_path_str ?p) [ascii ''a.h'', ascii ''b.h''])
                = [(rel_path_str ?p, {|ascii ''a.h'', ascii ''b.h''|})]"
    using c_includes_extracted[OF d f r2 p2 c2] by simp
  show ?thesis using d f r1 c1 a1 c2 a2 unfolding rel by blast
qed

lemma post_of_python: "post_of ''python'' = (\<lambda>t. t)"
  by (rule ext) (simp add: post_of_def)

lemma post_of_bash: "post_of ''bash'' = (\<lambda>t. t)"
  by (rule ext) (simp add: post_of_def)

lemma post_of_lua: "post_of ''lua'' = strip_quotes"
  by (rule ext) (simp add: post_of_def)

lemma post_of_perl: "post_of ''perl'' = (\<lambda>t. t)"
  by (rule ext) (simp add: post_of_def)

lemma fallback_of_python: "fallback_of E ''python'' = regex_python_imports (isalnum E)"
  by (rule ext) (simp add: fallback_of_def)

lemma fallback_of_bash: "fallback_of E ''bash'' = regex_bash_sources"
  by (rule ext) (simp add: fallback_of_def)

lemma fallback_of_lua: "fallback_of E ''lua'' = regex_lua_requires"
  by (rule ext) (simp add: fallback_of_def)

lemma fallback_of_perl: "fallback_of E ''perl'' = regex_perl_uses (isalnum E)"
  by (rule ext) (simp add: fallback_of_def)

text \<open>For the four languages with a guarded query, the analysis is the parse followed by
  \<open>guarded_query\<close>.\<close>

lemma analyze_guarded:
  assumes "detect_language p = Some L" and "guarded_language L"
    and "read_bytes E p = Inr src"
  shows "analyze_file E p =
     (case ts_parse E L src of
        Inl e \<Rightarrow> Inl e
      | Inr tree \<Rightarrow>
          Inr (Some L, guarded_query E L (query_of L) (capture_of L) (post_of L)
                         (fallback_of E L) src tree))"
proof -
  from assms(2) consider "L = ''python''" | "L = ''bash''" | "L = ''lua''" | "L = ''perl''"
    by (auto simp: guarded_language_def)
  then show ?thesis
  proof cases
    case 1
    have "analyze_file E p
            = (case query_python_imports E src L of
                 Inl e \<Rightarrow> Inl e | Inr deps \<Rightarrow> Inr (Some L, deps))"
      using analyze_file_via[OF assms(1,3), of query_python_imports] dispatch(3) 1 by blast
    then show ?thesis
      by (simp add: 1 query_python_imports_def query_of_def capture_of_def post_of_python
            fallback_of_python split: sum.splits)
  next
    case 2
    have "analyze_file E p
            = (case query_bash_sources E src L of
                 Inl e \<Rightarrow> Inl e | Inr deps \<Rightarrow> Inr (Some L, deps))"
      using analyze_file_via[OF assms(1,3), of query_bash_sources] dispatch(4) 2 by blast
    then show ?thesis
      by (simp add: 2 query_bash_sources_def query_of_def capture_of_def post_of_bash
            fallback_of_bash split: sum.splits)
  next
    case 3
    have "analyze_file E p
            = (case query_lua_requires E src L of
                 Inl e \<Rightarrow> Inl e | Inr deps \<Rightarrow> Inr (Some L, deps))"
      using analyze_file_via[OF assms(1,3), of query_lua_requires] dispatch(5) 3 by blast
    then show ?thesis
      by (simp add: 3 query_lua_requires_def query_of_def capture_of_def post_of_lua
            fallback_of_lua split: sum.splits)
  next
    case 4
    have "analyze_file E p
            = (case query_perl_uses E src L of
                 Inl e \<Rightarrow> Inl e | Inr deps \<Rightarrow> Inr (Some L, deps))"
      using analyze_file_via[OF assms(1,3), of query_perl_uses] dispatch(6) 4 by blast
    then show ?thesis
      by (simp add: 4 query_perl_uses_def query_of_def capture_of_def post_of_perl
            fallback_of_perl split: sum.splits)
  qed
qed

lemma guarded_query_raises:
  "ts_captures E L q tree = Inl e \<Longrightarrow>
   guarded_query E L q nm post fb src tree = fb (decode_ignore src)"
  by (simp add: guarded_query_def Let_def)

lemma guarded_query_decode_raises:
  "ts_captures E L q tree = Inr caps \<Longrightarrow> collect nm post src caps [] = (ms, Some e) \<Longrightarrow>
   guarded_query E L q nm post fb src tree = ms @ fb (decode_ignore src)"
  by (simp add: guarded_query_def Let_def)

lemma guarded_query_returns:
  "ts_captures E L q tree = Inr caps \<Longrightarrow> collect nm post src caps [] = (ms, None) \<Longrightarrow>
   guarded_query E L q nm post fb src tree = (if ms = [] then fb (decode_ignore src) else ms)"
  by (simp add: guarded_query_def Let_def)

text \<open>The function for C and C++ has no \<^verbatim>\<open>try\<close>: what its query stage raises leaves it.\<close>

lemma query_c_includes_raises:
  "ts_parse E L src = Inr tree \<Longrightarrow> ts_captures E L C_QUERY tree = Inl e \<Longrightarrow>
   query_c_includes E src L = Inl e"
  by (simp add: query_c_includes_def)

lemma query_c_includes_decode_raises:
  "ts_parse E L src = Inr tree \<Longrightarrow> ts_captures E L C_QUERY tree = Inr caps \<Longrightarrow>
   collect ''include'' strip_quotes src caps [] = (ms, Some e) \<Longrightarrow>
   query_c_includes E src L = Inl e"
  by (simp add: query_c_includes_def)

text \<open>
  Claim C2, as stated, fails: in every query function the grammar is loaded and the file
  parsed before the \<^verbatim>\<open>try\<close>, so an exception of the parser leaves the extraction. Here the
  Python file of the example tree is analysed with a parser that raises.
\<close>

theorem parse_exception_propagates:
  "analyze_file (example_env parse_raises no_captures example_tree) [ascii ''tools'', ascii ''m.py'']
     = Inl TreeSitterError"
  by code_simp

text \<open>
  Claim C2, amended. For a file of the languages python, bash, lua and perl that has been
  read: an exception raised while loading the grammar or parsing propagates; once the
  parse has succeeded the extraction returns; an exception raised by compiling or running
  the query is caught and the result is what the regex fallback finds; an exception raised
  while decoding a captured node is caught and the result is the captures collected before
  it followed by what the regex fallback finds; and when nothing raises, the result is the
  captures, or the regex fallback's matches when there are none.
\<close>

theorem query_exceptions_caught:
  assumes "detect_language p = Some L" and "guarded_language L"
    and "read_bytes E p = Inr src"
  shows "(ts_parse E L src = Inl e \<longrightarrow> analyze_file E p = Inl e)
    \<and> (ts_parse E L src = Inr tree \<longrightarrow> (\<exists>deps. analyze_file E p = Inr (Some L, deps)))
    \<and> (ts_parse E L src = Inr tree \<and> ts_captures E L (query_of L) tree = Inl e \<longrightarrow>
         analyze_file E p = Inr (Some L, fallback_of E L (decode_ignore src)))
    \<and> (ts_parse E L src = Inr tree \<and> ts_captures E L (query_of L) tree = Inr caps
         \<and> collect (capture_of L) (post_of L) src caps [] = (ms, Some e) \<longrightarrow>
         analyze_file E p = Inr (Some L, ms @ fallback_of E L (decode_ignore src)))
    \<and> (ts_parse E L src = Inr tree \<and> ts_captures E L (query_of L) tree = Inr caps
         \<and> collect (capture_of L) (post_of L) src caps [] = (ms, None) \<longrightarrow>
         analyze_file E p
           = Inr (Some L, if ms = [] then fallback_of E L (decode_ignore src) else ms))"
proof -
  note a = analyze_guarded[OF assms]
  show ?thesis
  proof (intro conjI impI)
    show "analyze_file E p = Inl e" if "ts_parse E L src = Inl e"
      using that a by simp
    show "\<exists>deps. analyze_file E p = Inr (Some L, deps)" if "ts_parse E L src = Inr tree"
      using that a by simp
    show "analyze_file E p = Inr (Some L, fallback_of E L (decode_ignore src))"
      if "ts_parse E L src = Inr tree \<and> ts_captures E L (query_of L) tree = Inl e"
      using that a by (simp add: guarded_query_raises)
    show "analyze_file E p = Inr (Some L, ms @ fallback_of E L (decode_ignore src))"
      if "ts_parse E L src = Inr tree \<and> ts_captures E L (query_of L) tree = Inr caps
          \<and> collect (capture_of L) (post_of L) src caps [] = (ms, Some e)"
      using that a by (simp add: guarded_query_decode_raises)
    show "analyze_file E p
            = Inr (Some L, if ms = [] then fallback_of E L (decode_ignore src) else ms)"
      if "ts_parse E L src = Inr tree \<and> ts_captures E L (query_of L) tree = Inr caps
          \<and> collect (capture_of L) (post_of L) src caps [] = (ms, None)"
      using that a by (simp add: guarded_query_returns)
  qed
qed

theorem query_exceptions_caught_witness:
  "detect_language [ascii ''m.py''] = Some ''python''
   \<and> guarded_language ''python''
   \<and> ts_parse (example_env parse_raises no_captures [([ascii ''m.py''], python_imports)])
         ''python'' python_imports = Inl TreeSitterError
   \<and> analyze_file (example_env parse_raises no_captures [([ascii ''m.py''], python_imports)])
         [ascii ''m.py''] = Inl TreeSitterError
   \<and> ts_captures (example_env parse_ok query_raises [([ascii ''m.py''], python_imports)])
         ''python'' (query_of ''python'') () = Inl TreeSitterError
   \<and> analyze_file (example_env parse_ok query_raises [([ascii ''m.py''], python_imports)])
         [ascii ''m.py''] = Inr (Some ''python'', [ascii ''os'', ascii ''sys''])
   \<and> collect (capture_of ''python'') (post_of ''python'') python_bad_byte
         [((7, 9), ''module''), ((10, 11), ''module'')] []
       = ([ascii ''os''], Some UnicodeDecodeError)
   \<and> analyze_file (example_env parse_ok bad_byte_captures [([ascii ''m.py''], python_bad_byte)])
         [ascii ''m.py''] = Inr (Some ''python'', [ascii ''os'', ascii ''os''])
   \<and> collect (capture_of ''python'') (post_of ''python'') python_imports [] [] = ([], None)
   \<and> analyze_file (example_env parse_ok no_captures [([ascii ''m.py''], python_imports)])
         [ascii ''m.py''] = Inr (Some ''python'', [ascii ''os'', ascii ''sys''])"
proof -
  let ?p = "[ascii ''m.py'']"
  let ?Ep = "example_env parse_raises no_captures [([ascii ''m.py''], python_imports)]"
  let ?Eq = "example_env parse_ok query_raises [([ascii ''m.py''], python_imports)]"
  let ?Eb = "example_env parse_ok bad_byte_captures [([ascii ''m.py''], python_bad_byte)]"
  let ?En = "example_env parse_ok no_captures [([ascii ''m.py''], python_imports)]"
  have d: "detect_language ?p = Some ''python''" by code_simp
  have g: "guarded_language ''python''" by (simp add: guarded_language_def)
  have rp: "read_bytes ?Ep ?p = Inr python_imports" by code_simp
  have rq: "read_bytes ?Eq ?p = Inr python_imports" by code_simp
  have rb: "read_bytes ?Eb ?p = Inr python_bad_byte" by code_simp
  have rn: "read_bytes ?En ?p = Inr python_imports" by code_simp
  have pp: "ts_parse ?Ep ''python'' python_imports = Inl TreeSitterError"
    by (simp add: example_env_def parse_raises_def)
  have pq: "ts_parse ?Eq ''python'' python_imports = Inr ()"
    by (simp add: example_env_def parse_ok_def)
  have pb: "ts_parse ?Eb ''python'' python_bad_byte = Inr ()"
    by (simp add: example_env_def parse_ok_def)
  have pn: "ts_parse ?En ''python'' python_imports = Inr ()"
    by (simp add: example_env_def parse_ok_def)
  have cq: "ts_captures ?Eq ''python'' (query_of ''python'') () = Inl TreeSitterError"
    by (simp add: example_env_def query_raises_def)
  have cb: "ts_captures ?Eb ''python'' (query_of ''python'') ()
              = Inr [((7, 9), ''module''), ((10, 11), ''module'')]"
    by (simp add: example_env_def bad_byte_captures_def)
  have cn: "ts_captures ?En ''python'' (query_of ''python'') () = Inr []"
    by (simp add: example_env_def no_captures_def)
  have kb: "collect (capture_of ''python'') (post_of ''python'') python_bad_byte
              [((7, 9), ''module''), ((10, 11), ''module'')] []
            = ([ascii ''os''], Some UnicodeDecodeError)"
    by code_simp
  have kn: "collect (capture_of ''python'') (post_of ''python'') python_imports [] [] = ([], None)"
    by simp
  have fq: "fallback_of ?Eq ''python'' (decode_ignore python_imports) = [ascii ''os'', ascii ''sys'']"
    by code_simp
  have fb: "fallback_of ?Eb ''python'' (decode_ignore python_bad_byte) = [ascii ''os'']"
    by code_simp
  have fn: "fallback_of ?En ''python'' (decode_ignore python_imports) = [ascii ''os'', ascii ''sys'']"
    by code_simp
  have ap: "analyze_file ?Ep ?p = Inl TreeSitterError"
    using query_exceptions_caught[OF d g rp, of TreeSitterError] pp by blast
  have aq: "analyze_file ?Eq ?p = Inr (Some ''python'', [ascii ''os'', ascii ''sys''])"
    using query_exceptions_caught[OF d g rq, of TreeSitterError "()"] pq cq fq by simp
  have ab: "analyze_file ?Eb ?p = Inr (Some ''python'', [ascii ''os'', ascii ''os''])"
    using query_exceptions_caught[OF d g rb, of UnicodeDecodeError "()"
            "[((7, 9), ''module''), ((10, 11), ''module'')]" "[ascii ''os'']"] pb cb kb fb
    by simp
  have an: "analyze_file ?En ?p = Inr (Some ''python'', [ascii ''os'', ascii ''sys''])"
    using query_exceptions_caught[OF d g rn, of _ "()" "[]" "[]"] pn cn kn fn by simp
  show ?thesis using d g pp ap cq aq kb ab kn an by blast
qed

text \<open>
  Claim C1, as stated, fails. The language map sends the extension \<^verbatim>\<open>.S\<close> to the Tree-sitter
  language \<^verbatim>\<open>c\<close> (its comment: preprocessor-style includes are common), and that language
  has a query function. For the file \<^verbatim>\<open>boot.S\<close> holding \<^verbatim>\<open>%include "foo.inc"\<close> the analysis
  is not what the regex for \<^verbatim>\<open>%include\<close> and \<^verbatim>\<open>.include\<close> finds, and with a parser that
  raises the analysis raises: the grammar is tried.
\<close>

theorem asm_file_takes_c_path:
  "detect_language [ascii ''boot.S''] = Some ''c''
   \<and> analyze_file (example_env parse_ok no_captures [([ascii ''boot.S''], asm_include)])
        [ascii ''boot.S''] = Inr (Some ''c'', [])
   \<and> regex_asm_includes (decode_ignore asm_include) = [ascii ''foo.inc'']
   \<and> analyze_file (example_env parse_raises no_captures [([ascii ''boot.S''], asm_include)])
        [ascii ''boot.S''] = Inl TreeSitterError"
  by code_simp

text \<open>
  Claim C1, amended. Every file with the extension \<^verbatim>\<open>.S\<close> has the language \<^verbatim>\<open>c\<close>, and its
  analysis is the extraction of C includes from its content: the grammar is loaded and
  the content parsed first (an exception there propagates), the captured include paths
  are the result when there are some, and the \<^verbatim>\<open>#include\<close> regex is the fallback when the
  query captures no include.
\<close>

theorem asm_files_take_c_strategy:
  assumes "suffix_of p = ascii ''.S''"
  shows "detect_language p = Some ''c''
    \<and> analyze_file E p =
        (case read_bytes E p of
           Inl e \<Rightarrow> Inl e
         | Inr source_bytes \<Rightarrow>
             (case query_c_includes E source_bytes ''c'' of
                Inl e \<Rightarrow> Inl e
              | Inr dependencies \<Rightarrow> Inr (Some ''c'', dependencies)))
    \<and> (read_bytes E p = Inr src \<and> ts_parse E ''c'' src = Inl e \<longrightarrow> analyze_file E p = Inl e)
    \<and> (read_bytes E p = Inr src \<and> ts_parse E ''c'' src = Inr tree
         \<and> ts_captures E ''c'' C_QUERY tree = Inr caps
         \<and> collect ''include'' strip_quotes src caps [] = (includes, None) \<longrightarrow>
         analyze_file E p
           = Inr (Some ''c'', if includes = [] then regex_c_includes (decode_ignore src)
                              else includes))"
proof -
  have d: "detect_language p = Some ''c''"
    using assms by (simp add: detect_language_def LANGUAGE_MAP_def ascii_def)
  have a: "analyze_file E p =
        (case read_bytes E p of
           Inl e \<Rightarrow> Inl e
         | Inr source_bytes \<Rightarrow>
             (case query_c_includes E source_bytes ''c'' of
                Inl e \<Rightarrow> Inl e
              | Inr dependencies \<Rightarrow> Inr (Some ''c'', dependencies)))"
    using d by (simp add: analyze_file_def dispatch split: sum.splits)
  have b: "analyze_file E p = Inl e"
    if "read_bytes E p = Inr src \<and> ts_parse E ''c'' src = Inl e"
    using that by (simp add: a query_c_includes_def)
  have c: "analyze_file E p
           = Inr (Some ''c'', if includes = [] then regex_c_includes (decode_ignore src)
                              else includes)"
    if "read_bytes E p = Inr src \<and> ts_parse E ''c'' src = Inr tree
         \<and> ts_captures E ''c'' C_QUERY tree = Inr caps
         \<and> collect ''include'' strip_quotes src caps [] = (includes, None)"
    using that by (simp add: a query_c_includes_def)
  show ?thesis using d a b c by blast
qed

theorem asm_files_take_c_strategy_witness:
  "suffix_of [ascii ''boot.S''] = ascii ''.S''
   \<and> detect_language [ascii ''boot.S''] = Some ''c''
   \<and> ts_parse (example_env parse_raises no_captures [([ascii ''boot.S''], two_includes)])
        ''c'' two_includes = Inl TreeSitterError
   \<and> analyze_file (example_env parse_raises no_captures [([ascii ''boot.S''], two_includes)])
        [ascii ''boot.S''] = Inl TreeSitterError
   \<and> collect ''include'' strip_quotes two_includes [] [] = ([], None)
   \<and> analyze_file (example_env parse_ok no_captures [([ascii ''boot.S''], two_includes)])
        [ascii ''boot.S''] = Inr (Some ''c'', [ascii ''a.h'', ascii ''b.h''])
   \<and> analyze_file (example_env parse_ok two_captures [([ascii ''boot.S''], two_includes)])
        [ascii ''boot.S''] = Inr (Some ''c'', [ascii ''a.h'', ascii ''b.h''])"
proof -
  let ?p = "[ascii ''boot.S'']"
  let ?Er = "example_env parse_raises no_captures [([ascii ''boot.S''], two_includes)]"
  let ?En = "example_env parse_ok no_captures [([ascii ''boot.S''], two_includes)]"
  let ?Et = "example_env parse_ok two_captures [([ascii ''boot.S''], two_includes)]"
  have s: "suffix_of ?p = ascii ''.S''" by code_simp
  have rr: "read_bytes ?Er ?p = Inr two_includes" by code_simp
  have rn: "read_bytes ?En ?p = Inr two_includes" by code_simp
  have rt: "read_bytes ?Et ?p = Inr two_includes" by code_simp
  have pr: "ts_parse ?Er ''c'' two_includes = Inl TreeSitterError"
    by (simp add: example_env_def parse_raises_def)
  have pn: "ts_parse ?En ''c'' two_includes = Inr ()"
    by (simp add: example_env_def parse_ok_def)
  have pt: "ts_parse ?Et ''c'' two_includes = Inr ()"
    by (simp add: example_env_def parse_ok_def)
  have cn: "ts_captures ?En ''c'' C_QUERY () = Inr []"
    by (simp add: example_env_def no_captures_def)
  have ct: "ts_captures ?Et ''c'' C_QUERY () = Inr two_include_captures"
    by (simp add: example_env_def two_captures_def)
  have kn: "collect ''include'' strip_quotes two_includes [] [] = ([], None)" by simp
  have d: "detect_language ?p = Some ''c''"
    using asm_files_take_c_strategy[OF s, of ?En] by blast
  have ar: "analyze_file ?Er ?p = Inl TreeSitterError"
    using asm_files_take_c_strategy[OF s, of ?Er two_includes TreeSitterError] rr pr by blast
  have "analyze_file ?En ?p
          = Inr (Some ''c'', if ([] :: str list) = [] then regex_c_includes (decode_ignore two_includes)
                             else [])"
    using asm_files_take_c_strategy[OF s, of ?En two_includes _ "()" "[]" "[]"] rn pn cn kn
    by blast
  then have an: "analyze_file ?En ?p = Inr (Some ''c'', [ascii ''a.h'', ascii ''b.h''])"
    by (simp add: regex_two_includes)
  have "analyze_file ?Et ?p
          = Inr (Some ''c'', if [ascii ''a.h'', ascii ''b.h''] = []
                             then regex_c_includes (decode_ignore two_includes)
                             else [ascii ''a.h'', ascii ''b.h''])"
    using asm_files_take_c_strategy[OF s, of ?Et two_includes _ "()" two_include_captures
            "[ascii ''a.h'', ascii ''b.h'']"] rt pt ct collect_two_includes
    by blast
  then have at: "analyze_file ?Et ?p = Inr (Some ''c'', [ascii ''a.h'', ascii ''b.h''])"
    by simp
  show ?thesis using s d pr ar kn an at by blast
qed

end
